theory Spec2Isabelle
  imports Main "HOL-Library.Sublist" "HOL-Library.Code_Target_Nat"
begin

section \<open>Python values and strings\<close>

text \<open>
  A Python \<^verbatim>\<open>str\<close> is the sequence of its Unicode code points. The string literals of
  the source are ASCII; \<open>str\<close> turns such a literal into its code points. Dictionary keys,
  field identifiers and prompts only ever come from literals of the source and stay literals.
\<close>

type_synonym pystr = "nat list"

definition str :: "string \<Rightarrow> pystr" where
  "str s = map of_char s"

text \<open>
  The profile dictionaries of the pipelines hold JSON values. The scalar values that occur
  are \<^verbatim>\<open>None\<close>, text and integers; \<open>==\<close> on them is structural equality.
\<close>

datatype pyval = PNone | PStr pystr | PInt int

datatype pyerror = AttributeError | KeyError | IndexError | ValueError | EOFError | OSError
  | APIError

type_synonym pydict = "string \<rightharpoonup> pyval"

text \<open>\<^verbatim>\<open>d.get(k, default)\<close>: the default only when the key is absent.\<close>

definition dget :: "pydict \<Rightarrow> string \<Rightarrow> pyval \<Rightarrow> pyval" where
  "dget d k dflt = (case d k of None \<Rightarrow> dflt | Some v \<Rightarrow> v)"

text \<open>Python truthiness of a scalar: \<^verbatim>\<open>None\<close>, \<^verbatim>\<open>''\<close> and \<^verbatim>\<open>0\<close> are falsy.\<close>

fun truthy :: "pyval \<Rightarrow> bool" where
  "truthy PNone = False"
| "truthy (PStr s) = (s \<noteq> [])"
| "truthy (PInt i) = (i \<noteq> 0)"

text \<open>
  What the interpreter brings along and the repository does not fix: the case mapping and the
  decimal digits of its Unicode database, and the limit on the number of digits that
  \<^verbatim>\<open>int()\<close> converts (\<^verbatim>\<open>sys.get_int_max_str_digits()\<close>: 4300 unless configured, 0 for
  no limit). On ASCII text Python's string operations are fixed, and the tables are consulted
  for other characters only:
  \<^item> \<open>str_lower\<close> is \<^verbatim>\<open>str.lower()\<close> on text with a non-ASCII character;
  \<^item> \<open>decimal\<close> gives the digit value of a non-ASCII decimal digit (category Nd), which is
    what \<^verbatim>\<open>\d\<close> matches and \<^verbatim>\<open>int()\<close> converts.
\<close>

record interp =
  str_lower :: "pystr \<Rightarrow> pystr"
  decimal :: "nat \<Rightarrow> nat option"
  int_max_str_digits :: nat

definition ascii_lower_char :: "nat \<Rightarrow> nat" where
  "ascii_lower_char c = (if 65 \<le> c \<and> c \<le> 90 then c + 32 else c)"

definition ascii_lower :: "pystr \<Rightarrow> pystr" where
  "ascii_lower s = map ascii_lower_char s"

text \<open>\<^verbatim>\<open>s.lower()\<close>\<close>

definition lower :: "interp \<Rightarrow> pystr \<Rightarrow> pystr" where
  "lower I s = (if list_all (\<lambda>c. c < 128) s then ascii_lower s else str_lower I s)"

text \<open>What \<^verbatim>\<open>\d\<close> matches in a \<^verbatim>\<open>str\<close> pattern: the decimal digits.\<close>

definition is_digit :: "interp \<Rightarrow> nat \<Rightarrow> bool" where
  "is_digit I c = (if c < 128 then 48 \<le> c \<and> c \<le> 57 else decimal I c \<noteq> None)"

text \<open>
  The characters that \<^verbatim>\<open>\s\<close> matches and \<^verbatim>\<open>str.strip()\<close> removes
  (\<^verbatim>\<open>str.isspace\<close>): tab to carriage return, the four separators
  \<^verbatim>\<open>\x1c\<close> to \<^verbatim>\<open>\x1f\<close>, the space, next line, no-break space, and the Unicode space
  and line separators.
\<close>

definition is_space :: "nat \<Rightarrow> bool" where
  "is_space c = (c \<in> set [0x09, 0x0A, 0x0B, 0x0C, 0x0D, 0x1C, 0x1D, 0x1E, 0x1F, 0x20,
     0x85, 0xA0, 0x1680, 0x2000, 0x2001, 0x2002, 0x2003, 0x2004, 0x2005, 0x2006, 0x2007,
     0x2008, 0x2009, 0x200A, 0x2028, 0x2029, 0x202F, 0x205F, 0x3000])"

text \<open>
  The one fact about the digit table that the proofs use: no whitespace character is a
  decimal digit.
\<close>

definition digits_apart :: "interp \<Rightarrow> bool" where
  "digits_apart I = (\<forall>c. is_space c \<longrightarrow> \<not> is_digit I c)"

text \<open>The value of a decimal digit; \<^verbatim>\<open>int()\<close> is only given digits.\<close>

definition digit_val :: "interp \<Rightarrow> nat \<Rightarrow> int" where
  "digit_val I c =
     (if \<not> is_digit I c then 0
      else if c < 128 then int c - 48
      else (case decimal I c of Some v \<Rightarrow> int v | None \<Rightarrow> 0))"

text \<open>The number that a string of decimal digits denotes.\<close>

definition digits_value :: "interp \<Rightarrow> pystr \<Rightarrow> int" where
  "digits_value I ds = foldl (\<lambda>n d. 10 * n + digit_val I d) 0 ds"

text \<open>
  \<^verbatim>\<open>int(number)\<close> on a string of decimal digits: Python's integers are unbounded, but a
  string with more digits than the limit raises \<^verbatim>\<open>ValueError\<close>.
\<close>

definition py_int :: "interp \<Rightarrow> pystr \<Rightarrow> pyerror + int" where
  "py_int I ds =
     (if 0 < int_max_str_digits I \<and> int_max_str_digits I < length ds then Inl ValueError
      else Inr (digits_value I ds))"

text \<open>\<^verbatim>\<open>s.startswith(p)\<close>\<close>

definition startswith :: "pystr \<Rightarrow> pystr \<Rightarrow> bool" where
  "startswith s p = (take (length p) s = p)"

section \<open>Duration parser (streamlit\_app/main\_functions.py)\<close>

text \<open>
  \<^verbatim>\<open>pattern = re.compile(r'(\d+)\s*(yr|yrs|mo|mos)', re.IGNORECASE)\<close>

  One attempt of the pattern at the start of \<open>s\<close>. \<^verbatim>\<open>\d+\<close> and \<^verbatim>\<open>\s*\<close> are greedy;
  giving back a digit or a blank never helps, because the unit must start with a letter,
  so the attempt succeeds exactly when the longest run of digits is non-empty and, after
  the longest run of blanks, the next two characters are \<open>yr\<close> or \<open>mo\<close> in any case.
  Under \<^verbatim>\<open>re.IGNORECASE\<close> the letters y, r, m and o match their two ASCII forms and no
  other character. The alternation tries \<open>yr\<close> before \<open>yrs\<close> and \<open>mo\<close> before \<open>mos\<close>,
  so the second group is always the two-letter unit and a following \<open>s\<close> is left in the
  rest. The result is the pair of groups and the text after the match.
\<close>

definition match_at :: "interp \<Rightarrow> pystr \<Rightarrow> ((pystr \<times> pystr) \<times> pystr) option" where
  "match_at I s =
     (let number = takeWhile (is_digit I) s;
          r = dropWhile is_space (dropWhile (is_digit I) s)
      in if number = [] then None
         else (case r of
                 a # b # rest \<Rightarrow>
                   if ascii_lower [a, b] = str ''yr'' \<or> ascii_lower [a, b] = str ''mo''
                   then Some ((number, [a, b]), rest)
                   else None
               | _ \<Rightarrow> None))"

text \<open>
  \<^verbatim>\<open>pattern.findall(duration_string)\<close>: scan from the left; after a match continue behind
  it, otherwise move one character on.
\<close>

function findall :: "interp \<Rightarrow> pystr \<Rightarrow> (pystr \<times> pystr) list" where
  "findall I [] = []"
| "findall I (c # cs) =
     (case match_at I (c # cs) of
        Some (tok, rest) \<Rightarrow> tok # findall I rest
      | None \<Rightarrow> findall I cs)"
  by pat_completeness auto
termination
proof (relation "measure (\<lambda>(I, s). length s)")
  show "wf (measure (\<lambda>(I :: interp, s :: pystr). length s))" by simp
next
  fix I :: interp and c :: nat and cs :: pystr
  show "((I, cs), (I, c # cs)) \<in> measure (\<lambda>(I, s). length s)" by simp
next
  fix I :: interp and c :: nat and cs :: pystr and x2 :: "(pystr \<times> pystr) \<times> pystr"
    and x y
  assume m: "match_at I (c # cs) = Some x2" and x: "(x, y) = x2"
  have "length (dropWhile is_space (dropWhile (is_digit I) (c # cs))) \<le> length (c # cs)"
    by (rule order_trans [OF length_dropWhile_le length_dropWhile_le])
  moreover from m x obtain a b where
    "dropWhile is_space (dropWhile (is_digit I) (c # cs)) = a # b # y"
    by (auto simp: match_at_def Let_def split: if_splits list.splits)
  ultimately show "((I, y), (I, c # cs)) \<in> measure (\<lambda>(I, s). length s)" by simp
qed

text \<open>
  The loop over the matches. A \<^verbatim>\<open>ValueError\<close> of \<^verbatim>\<open>int\<close> leaves the loop, and
  \<^verbatim>\<open>parse_duration\<close> has no handler for it.
  \<^verbatim>\<open>
    for match in matches:
        number, unit = match
        number = int(number)
        unit = unit.lower()
        if unit.startswith('yr'):   total_months += number * 12
        elif unit.startswith('mo'): total_months += number
  \<close>
\<close>

fun months_loop :: "interp \<Rightarrow> (pystr \<times> pystr) list \<Rightarrow> int \<Rightarrow> pyerror + int" where
  "months_loop I [] total_months = Inr total_months"
| "months_loop I ((number, unit) # matches) total_months =
     (case py_int I number of
        Inl e \<Rightarrow> Inl e
      | Inr n \<Rightarrow>
          (let u = lower I unit
           in months_loop I matches
                (if startswith u (str ''yr'') then total_months + n * 12
                 else if startswith u (str ''mo'') then total_months + n
                 else total_months)))"

definition parse_duration :: "interp \<Rightarrow> pystr \<Rightarrow> pyerror + int" where
  "parse_duration I duration_string = months_loop I (findall I duration_string) 0"

text \<open>
  The contract of the duration parser in the specification's words: every matched token
  contributes its number times 12 when the unit is a year unit, its number when the unit is a
  month unit, and the contributions are added up.
\<close>

definition token_months :: "interp \<Rightarrow> pystr \<times> pystr \<Rightarrow> int" where
  "token_months I t =
     (if ascii_lower (snd t) \<in> {str ''yr'', str ''yrs''} then digits_value I (fst t) * 12
      else if ascii_lower (snd t) \<in> {str ''mo'', str ''mos''} then digits_value I (fst t)
      else 0)"

definition duration_spec :: "interp \<Rightarrow> (pystr \<times> pystr) list \<Rightarrow> int" where
  "duration_spec I tokens = sum_list (map (token_months I) tokens)"

text \<open>Changing the ASCII case of both groups of a match.\<close>

definition lower_tok :: "pystr \<times> pystr \<Rightarrow> pystr \<times> pystr" where
  "lower_tok t = (ascii_lower (fst t), ascii_lower (snd t))"

text \<open>No matched number has more digits than \<^verbatim>\<open>int()\<close> converts.\<close>

definition within_limit :: "interp \<Rightarrow> (pystr \<times> pystr) list \<Rightarrow> bool" where
  "within_limit I tokens =
     (int_max_str_digits I = 0 \<or> (\<forall>t \<in> set tokens. length (fst t) \<le> int_max_str_digits I))"

section \<open>Profiles\<close>

text \<open>
  A profile dictionary: the scalar-valued keys (\<open>first_name\<close>, \<open>headline\<close>,
  \<open>follower_count\<close>, \<open>full_name\<close>, \<open>profile_status\<close>, ...) as a dictionary, and the
  three list-valued keys. The readers of the list-valued keys use
  \<^verbatim>\<open>.get(key, [])\<close> or test \<^verbatim>\<open>.get(key)\<close> for truth, and the one subscript read
  (\<^verbatim>\<open>test_profile['experience'][0]\<close>) raises for an absent key as for an empty list, so
  an absent key and the empty list behave alike and both are the empty list here. An
  experience or education entry is itself a dictionary of scalars.
\<close>

record profile =
  scalars :: pydict
  experience :: "pydict list"
  education :: "pydict list"
  previous_companies :: "pyval list"

section \<open>Change detector (pipelines/profile\_refresh.py)\<close>

text \<open>
  A recorded value is a scalar (a field value or a list length) or the list made from a set
  of companies. \<^verbatim>\<open>list(a_set)\<close> has no order that the code fixes, so that list is
  kept as the set.
\<close>

datatype chval = Val pyval | Companies "pyval set"

record delta =
  old :: chval
  new :: chval
  confidence :: "pystr option"

record changeset =
  changed_fields :: "string list"
  changes :: "string \<rightharpoonup> delta"
  has_changes :: bool

text \<open>
  The three statements that every detected difference executes:
  \<^verbatim>\<open>
    changes["changed_fields"].append(field)
    changes["changes"][field] = {"old": old_value, "new": new_value}
    changes["has_changes"] = True
  \<close>
\<close>

definition record_change :: "string \<Rightarrow> chval \<Rightarrow> chval \<Rightarrow> changeset \<Rightarrow> changeset" where
  "record_change field old_value new_value c =
     c\<lparr>changed_fields := changed_fields c @ [field],
       changes := (changes c)(field \<mapsto> \<lparr>old = old_value, new = new_value, confidence = None\<rparr>),
       has_changes := True\<rparr>"

definition simple_fields :: "string list" where
  "simple_fields = [''first_name'', ''last_name'', ''headline'', ''job_title'',
                    ''location'', ''follower_count'', ''connection_count'']"

definition exp_fields :: "string list" where
  "exp_fields = [''company'', ''title'', ''duration'', ''date_range'']"

text \<open>
  Both field loops of \<^verbatim>\<open>compare_profile_changes\<close> have the same body; the recorded
  identifier is the field name behind a prefix (empty for the simple fields,
  \<open>recent_experience_\<close> for the most recent role).
\<close>

fun compare_fields ::
  "string \<Rightarrow> string list \<Rightarrow> pydict \<Rightarrow> pydict \<Rightarrow> changeset \<Rightarrow> changeset" where
  "compare_fields pre [] old_d new_d c = c"
| "compare_fields pre (field # fs) old_d new_d c =
     (let old_value = dget old_d field (PStr []);
          new_value = dget new_d field (PStr [])
      in compare_fields pre fs old_d new_d
           (if old_value \<noteq> new_value
            then record_change (pre @ field) (Val old_value) (Val new_value) c
            else c))"

text \<open>
  \<^verbatim>\<open>[exp.get("company", "") for exp in new_exp if exp.get("company")]\<close>
\<close>

definition companies_of :: "pydict list \<Rightarrow> pyval list" where
  "companies_of exps =
     map (\<lambda>e. dget e ''company'' (PStr []))
         (filter (\<lambda>e. truthy (dget e ''company'' PNone)) exps)"

definition py_len :: "'a list \<Rightarrow> chval" where
  "py_len xs = Val (PInt (int (length xs)))"

definition compare_profile_changes :: "profile \<Rightarrow> profile \<Rightarrow> changeset" where
  "compare_profile_changes old_profile new_profile =
     (let c0 = \<lparr>changed_fields = [], changes = Map.empty, has_changes = False\<rparr>;
          c1 = compare_fields '''' simple_fields (scalars old_profile) (scalars new_profile) c0;
          old_exp = experience old_profile;
          new_exp = experience new_profile;
          c2 = (if length old_exp \<noteq> length new_exp
                then record_change ''experience_count'' (py_len old_exp) (py_len new_exp) c1
                else c1);
          c3 = (case (old_exp, new_exp) of
                  (old0 # _, new0 # _) \<Rightarrow>
                    compare_fields ''recent_experience_'' exp_fields old0 new0 c2
                | _ \<Rightarrow> c2);
          old_edu = education old_profile;
          new_edu = education new_profile;
          c4 = (if length old_edu \<noteq> length new_edu
                then record_change ''education_count'' (py_len old_edu) (py_len new_edu) c3
                else c3);
          old_companies = set (previous_companies old_profile);
          new_companies = set (companies_of new_exp)
      in if old_companies \<noteq> new_companies
         then record_change ''previous_companies''
                (Companies old_companies) (Companies new_companies) c4
         else c4)"

text \<open>
  What the specification's data model says of a stored profile: its
  \<open>previous_companies\<close> are the non-empty company names of its experience.
\<close>

definition companies_derived :: "profile \<Rightarrow> bool" where
  "companies_derived p = (set (previous_companies p) = set (companies_of (experience p)))"

definition swap_delta :: "delta \<Rightarrow> delta" where
  "swap_delta d = d\<lparr>old := new d, new := old d\<rparr>"

definition swap_changeset :: "changeset \<Rightarrow> changeset" where
  "swap_changeset c = c\<lparr>changes := (\<lambda>f. map_option swap_delta (changes c f))\<rparr>"

definition recent_experience_fields :: "string list" where
  "recent_experience_fields = [''recent_experience_company'', ''recent_experience_title'',
     ''recent_experience_duration'', ''recent_experience_date_range'']"


text \<open>The invariant of a change-set.\<close>

definition cs_ok :: "changeset \<Rightarrow> bool" where
  "cs_ok c = (has_changes c \<longleftrightarrow> changed_fields c \<noteq> [])"

text \<open>The change-set that \<^verbatim>\<open>compare_profile_changes\<close> starts from.\<close>

definition empty_changeset :: changeset where
  "empty_changeset = \<lparr>changed_fields = [], changes = Map.empty, has_changes = False\<rparr>"

text \<open>
  The change-set of \<^verbatim>\<open>compare_profile_changes\<close> before its last step, the comparison
  of the companies.
\<close>

definition upto_education :: "profile \<Rightarrow> profile \<Rightarrow> changeset" where
  "upto_education old_profile new_profile =
     (let c1 = compare_fields '''' simple_fields (scalars old_profile) (scalars new_profile)
                 empty_changeset;
          old_exp = experience old_profile;
          new_exp = experience new_profile;
          c2 = (if length old_exp \<noteq> length new_exp
                then record_change ''experience_count'' (py_len old_exp) (py_len new_exp) c1
                else c1);
          c3 = (case (old_exp, new_exp) of
                  (old0 # _, new0 # _) \<Rightarrow>
                    compare_fields ''recent_experience_'' exp_fields old0 new0 c2
                | _ \<Rightarrow> c2)
      in if length (education old_profile) \<noteq> length (education new_profile)
         then record_change ''education_count'' (py_len (education old_profile))
                (py_len (education new_profile)) c3
         else c3)"

text \<open>
  Sample profiles: a stored row, the same person after a promotion, and a profile without
  experience.
\<close>

definition engineer_at_acme :: pydict where
  "engineer_at_acme = [''title'' \<mapsto> PStr (str ''Engineer''), ''company'' \<mapsto> PStr (str ''Acme''),
     ''duration'' \<mapsto> PStr (str ''1 yr''), ''date_range'' \<mapsto> PStr (str ''Jan 2024 - Present'')]"

definition stored_profile :: profile where
  "stored_profile =
     \<lparr>scalars = [''full_name'' \<mapsto> PStr (str ''Ada Byron''), ''first_name'' \<mapsto> PStr (str ''Ada''),
                 ''headline'' \<mapsto> PStr (str ''Engineer at Acme''), ''follower_count'' \<mapsto> PInt 120,
                 ''profile_status'' \<mapsto> PStr (str ''currently_employed'')],
      experience = [engineer_at_acme],
      education = [],
      previous_companies = [PStr (str ''Acme'')]\<rparr>"

definition staff_at_acme :: pydict where
  "staff_at_acme = [''title'' \<mapsto> PStr (str ''Staff Engineer''), ''company'' \<mapsto> PStr (str ''Acme''),
     ''duration'' \<mapsto> PStr (str ''1 yr''), ''date_range'' \<mapsto> PStr (str ''Jan 2024 - Present'')]"

definition promoted_profile :: profile where
  "promoted_profile =
     \<lparr>scalars = [''full_name'' \<mapsto> PStr (str ''Ada Byron''), ''first_name'' \<mapsto> PStr (str ''Ada''),
                 ''headline'' \<mapsto> PStr (str ''Engineer at Acme''), ''follower_count'' \<mapsto> PInt 150],
      experience = [staff_at_acme],
      education = [],
      previous_companies = [PStr (str ''Acme'')]\<rparr>"

definition no_experience_profile :: profile where
  "no_experience_profile =
     \<lparr>scalars = [''full_name'' \<mapsto> PStr (str ''Ada Byron''), ''first_name'' \<mapsto> PStr (str ''Ada''),
                 ''headline'' \<mapsto> PStr (str ''Engineer at Acme''), ''follower_count'' \<mapsto> PInt 120],
      experience = [],
      education = [],
      previous_companies = []\<rparr>"

section \<open>Console and exemplar file\<close>

text \<open>
  The human-input channel is the console: \<open>stdin\<close> holds the lines the operator will
  type, \<open>prompts\<close> the prompts that \<^verbatim>\<open>input()\<close> has shown so far. The exemplar file
  \<^verbatim>\<open>profile_status_classification_examples.jsonl\<close> is the list of records appended to
  it; \<open>writable\<close> says whether opening it for appending succeeds. Plain \<^verbatim>\<open>print\<close> and
  logging output and the time stamp of an exemplar do not influence any result and are
  left out.
\<close>

record example =
  ex_headline :: pyval
  ex_recent_experience :: pydict
  ex_assigned_status :: pyval

record io =
  stdin :: "pystr list"
  prompts :: "string list"
  saved_examples :: "example list"
  writable :: bool

text \<open>\<^verbatim>\<open>input(prompt)\<close>: shows the prompt, then reads a line or raises at end of input.\<close>

definition py_input :: "string \<Rightarrow> io \<Rightarrow> (pyerror + pystr) \<times> io" where
  "py_input prompt s =
     (case stdin s of
        [] \<Rightarrow> (Inl EOFError, s\<lparr>prompts := prompts s @ [prompt]\<rparr>)
      | line # ls \<Rightarrow> (Inr line, s\<lparr>stdin := ls, prompts := prompts s @ [prompt]\<rparr>))"

text \<open>\<^verbatim>\<open>s.strip()\<close>\<close>

definition strip :: "pystr \<Rightarrow> pystr" where
  "strip s = rev (dropWhile is_space (rev (dropWhile is_space s)))"

text \<open>\<^verbatim>\<open>s.split(sep)\<close> for a one-character separator.\<close>

fun split_on :: "nat \<Rightarrow> pystr \<Rightarrow> pystr list" where
  "split_on sep [] = [[]]"
| "split_on sep (c # cs) =
     (if c = sep then [] # split_on sep cs
      else (case split_on sep cs of
              p # ps \<Rightarrow> (c # p) # ps
            | [] \<Rightarrow> [[c]]))"

section \<open>Status classifier gateway (pipelines/profile\_status\_classifier.py)\<close>

record classification =
  status :: pyval
  confidence_label :: pystr

text \<open>
  \<^verbatim>\<open>create_prompt_with_examples\<close> reads \<^verbatim>\<open>test_profile['experience'][0]\<close> and
  the four keys of that entry by subscript; each of these reads can raise. The prompt text
  itself (date, rubric, exemplars sampled at random) is not modelled: the result is the
  list of profile values written into it.
\<close>

definition create_prompt_with_examples :: "profile \<Rightarrow> pyerror + pyval list" where
  "create_prompt_with_examples test_profile =
     (case experience test_profile of
        [] \<Rightarrow> Inl IndexError
      | most_recent_exp # _ \<Rightarrow>
          (case (most_recent_exp ''title'', most_recent_exp ''company'',
                 most_recent_exp ''duration'', most_recent_exp ''date_range'') of
             (Some t, Some c, Some d, Some r) \<Rightarrow>
               Inr [dget (scalars test_profile) ''headline'' (PStr []), t, c, d, r]
           | _ \<Rightarrow> Inl KeyError))"

definition ai_failure :: classification where
  "ai_failure = \<lparr>status = PStr [], confidence_label = str ''low''\<rparr>"

text \<open>
  \<open>resp\<close> is the outcome of the external classification capability for this call:
  \<open>Inl e\<close> when the request raises (unreachable service, error status, exemplar file that
  cannot be formatted), \<open>Inr content\<close> with the text of the reply otherwise. Every
  exception inside \<^verbatim>\<open>get_profile_status\<close> ends in its \<^verbatim>\<open>except\<close> branch, which returns
  the empty status with confidence \<open>low\<close>; so does a reply that does not split into exactly
  two parts at \<open>|\<close> (the tuple assignment raises).
\<close>

definition get_profile_status ::
  "interp \<Rightarrow> (pyerror + pystr) \<Rightarrow> profile \<Rightarrow> classification" where
  "get_profile_status I resp test_profile =
     (case create_prompt_with_examples test_profile of
        Inl e \<Rightarrow> ai_failure
      | Inr prompt \<Rightarrow>
          (case resp of
             Inl e \<Rightarrow> ai_failure
           | Inr content \<Rightarrow>
               (case split_on (of_char CHR ''|'') (lower I (strip content)) of
                  [st, cl] \<Rightarrow> \<lparr>status = PStr (strip st), confidence_label = strip cl\<rparr>
                | _ \<Rightarrow> ai_failure)))"

definition confirm_prompt :: string where
  "confirm_prompt = CHR 0x0A # ''Is this classification correct? (y/n): ''"

text \<open>
  \<^verbatim>\<open>
    example = {"headline": profile.get('headline'),
               "recent_experience": profile.get('experience', [])[0]
                                    if profile.get('experience') else {},
               "assigned_status": final_status, ...}
    with open('profile_status_classification_examples.jsonl', 'a') as f:
        f.write(json.dumps(example) + '\n')
  \<close>
\<close>

definition save_example :: "profile \<Rightarrow> pyval \<Rightarrow> io \<Rightarrow> (pyerror + unit) \<times> io" where
  "save_example profile final_status s =
     (if writable s
      then (Inr (),
            s\<lparr>saved_examples := saved_examples s @
                 [\<lparr>ex_headline = dget (scalars profile) ''headline'' PNone,
                   ex_recent_experience =
                     (case experience profile of [] \<Rightarrow> Map.empty | e # _ \<Rightarrow> e),
                   ex_assigned_status = final_status\<rparr>]\<rparr>)
      else (Inl OSError, s))"

text \<open>
  The second question and the optional save, shared by the accept and the override branch
  (they differ in the wording of the question only).
\<close>

definition ask_to_save ::
  "interp \<Rightarrow> string \<Rightarrow> profile \<Rightarrow> pyval \<Rightarrow> io \<Rightarrow> (pyerror + unit) \<times> io" where
  "ask_to_save I question profile final_status s =
     (case py_input question s of
        (Inl e, s1) \<Rightarrow> (Inl e, s1)
      | (Inr answer, s1) \<Rightarrow>
          if lower I (strip answer) = str ''y'' then save_example profile final_status s1
          else (Inr (), s1))"

text \<open>
  The interactive part of \<^verbatim>\<open>check_profile_status_with_verification\<close>, from
  "Profile Review" to the final \<^verbatim>\<open>return\<close>; \<open>Inl\<close> is an exception on its way to the
  enclosing \<^verbatim>\<open>except\<close>.
\<close>

definition verify_with_user ::
  "interp \<Rightarrow> classification \<Rightarrow> profile \<Rightarrow> io \<Rightarrow> (pyerror + classification) \<times> io" where
  "verify_with_user I ai_result profile s =
     (case py_input confirm_prompt s of
        (Inl e, s1) \<Rightarrow> (Inl e, s1)
      | (Inr is_correct, s1) \<Rightarrow>
          if lower I (strip is_correct) = str ''y''
          then (let final_status = status ai_result in
                case ask_to_save I ''Save this as a training example? (y/n): ''
                       profile final_status s1 of
                  (Inl e, s2) \<Rightarrow> (Inl e, s2)
                | (Inr _, s2) \<Rightarrow>
                    (Inr \<lparr>status = final_status,
                          confidence_label = confidence_label ai_result\<rparr>, s2))
          else (case py_input ''Enter correct status: '' s1 of
                  (Inl e, s2) \<Rightarrow> (Inl e, s2)
                | (Inr typed, s2) \<Rightarrow>
                    (let final_status = PStr (lower I (strip typed)) in
                     case ask_to_save I ''Save this correction as a training example? (y/n): ''
                            profile final_status s2 of
                       (Inl e, s3) \<Rightarrow> (Inl e, s3)
                     | (Inr _, s3) \<Rightarrow>
                         (Inr \<lparr>status = final_status,
                               confidence_label = confidence_label ai_result\<rparr>, s3))))"

definition check_profile_status_with_verification ::
  "interp \<Rightarrow> (pyerror + pystr) \<Rightarrow> profile \<Rightarrow> bool \<Rightarrow> pyval \<Rightarrow> io
     \<Rightarrow> classification \<times> io" where
  "check_profile_status_with_verification I resp profile auto_approve old_status s =
     (let ai_result = get_profile_status I resp profile;
          new_status = status ai_result;
          status_unchanged = (old_status = new_status);
          should_auto_approve = (auto_approve \<and> status_unchanged)
      in if should_auto_approve
         then (\<lparr>status = status ai_result, confidence_label = confidence_label ai_result\<rparr>, s)
         else (case verify_with_user I ai_result profile s of
                 (Inl e, s') \<Rightarrow> (\<lparr>status = PNone, confidence_label = str ''low''\<rparr>, s')
               | (Inr result, s') \<Rightarrow> (result, s')))"

text \<open>The human-confirmation step was entered: its question is the next prompt shown.\<close>

definition asked_confirmation :: "io \<Rightarrow> io \<Rightarrow> bool" where
  "asked_confirmation s s' =
     (take (Suc (length (prompts s))) (prompts s') = prompts s @ [confirm_prompt])"


section \<open>Refresh path (pipelines/profile\_refresh.py)\<close>

text \<open>
  The update that \<^verbatim>\<open>prepare_profile_updates\<close> builds: the scalar columns to write, the
  three list columns, and the refresh status (the time stamp is left out).
\<close>

record updates =
  upd_scalars :: pydict
  upd_experience :: "pydict list"
  upd_education :: "pydict list"
  upd_previous_companies :: "pyval list"
  refresh_status :: string

definition non_critical_fields :: "string list" where
  "non_critical_fields = [''follower_count'', ''connection_count'', ''recent_experience_duration'']"

text \<open>
  \<^verbatim>\<open>
    changed_fields = set(detected_changes["changed_fields"])
    critical_changes = changed_fields - set(non_critical_fields)
    auto_approve = len(critical_changes) == 0 and len(changed_fields) > 0
  \<close>
\<close>

definition auto_approve_flag :: "changeset \<Rightarrow> bool" where
  "auto_approve_flag detected_changes =
     (let changed = set (changed_fields detected_changes);
          critical_changes = changed - set non_critical_fields
      in card critical_changes = 0 \<and> card changed > 0)"

definition fresh_fields :: "profile \<Rightarrow> updates" where
  "fresh_fields new_profile =
     \<lparr>upd_scalars =
        map_of (map (\<lambda>f. (f, dget (scalars new_profile) f (PStr []))) simple_fields),
      upd_experience = experience new_profile,
      upd_education = education new_profile,
      upd_previous_companies = companies_of (experience new_profile),
      refresh_status = ''success''\<rparr>"

definition prepare_profile_updates ::
  "interp \<Rightarrow> (pyerror + pystr) \<Rightarrow> profile \<Rightarrow> profile \<Rightarrow> changeset \<Rightarrow> io
     \<Rightarrow> (updates \<times> changeset) \<times> io" where
  "prepare_profile_updates I resp old_profile new_profile detected_changes s =
     (let upd = fresh_fields new_profile;
          auto_approve = auto_approve_flag detected_changes;
          old_status = dget (scalars old_profile) ''profile_status'' PNone;
          (cl, s') = check_profile_status_with_verification I resp new_profile
                       auto_approve old_status s
      in if status cl \<noteq> old_status
         then ((upd\<lparr>upd_scalars := (upd_scalars upd)
                      (''profile_status'' \<mapsto> status cl,
                       ''status_confidence_label'' \<mapsto> PStr (confidence_label cl))\<rparr>,
                detected_changes
                  \<lparr>changed_fields := changed_fields detected_changes @ [''profile_status''],
                   changes := (changes detected_changes)
                      (''profile_status'' \<mapsto>
                         \<lparr>old = Val old_status, new = Val (status cl),
                          confidence = Some (confidence_label cl)\<rparr>)\<rparr>), s')
         else ((upd, detected_changes), s'))"

text \<open>
  Steps 3 to 5 of \<^verbatim>\<open>refresh_single_profile\<close>, between the two fetches and the database
  write: with changes the prepared update is written, without changes only the refresh
  metadata.
\<close>

datatype refresh_outcome = Updated updates changeset | No_changes

definition refresh_single_profile ::
  "interp \<Rightarrow> (pyerror + pystr) \<Rightarrow> profile \<Rightarrow> profile \<Rightarrow> io
     \<Rightarrow> refresh_outcome \<times> io" where
  "refresh_single_profile I resp current_profile fresh_profile s =
     (let detected_changes = compare_profile_changes current_profile fresh_profile
      in if has_changes detected_changes
         then (case prepare_profile_updates I resp current_profile fresh_profile
                      detected_changes s of
                 ((upd, ch), s') \<Rightarrow> (Updated upd ch, s'))
         else (No_changes, s))"

section \<open>Label engine (pipelines/insert\_profile.py)\<close>

definition founder_keywords :: "pystr list" where
  "founder_keywords = map str [''founder'', ''co-founder'', ''co founder'',
                               ''chief executive officer'', ''ceo'']"

text \<open>\<^verbatim>\<open>keyword in role\<close>: the keyword occurs as a contiguous part of the role.\<close>

fun contains :: "pystr \<Rightarrow> pystr \<Rightarrow> bool" where
  "contains k [] = (k = [])"
| "contains k (c # cs) = (prefix k (c # cs) \<or> contains k cs)"

text \<open>\<^verbatim>\<open>v.lower()\<close> on a dictionary value: only text has the method.\<close>

definition val_lower :: "interp \<Rightarrow> pyval \<Rightarrow> pyerror + pystr" where
  "val_lower I v = (case v of PStr t \<Rightarrow> Inr (lower I t) | _ \<Rightarrow> Inl AttributeError)"

text \<open>
  \<^verbatim>\<open>
    for experience in profile.get('experience', []):
        role = experience.get('title', '').lower()
        if any(keyword in role for keyword in founder_keywords):
            founder_roles.append(experience)
  \<close>
\<close>

fun founder_loop ::
  "interp \<Rightarrow> pydict list \<Rightarrow> pydict list \<Rightarrow> pyerror + pydict list" where
  "founder_loop I [] founder_roles = Inr founder_roles"
| "founder_loop I (e # es) founder_roles =
     (case val_lower I (dget e ''title'' (PStr [])) of
        Inl err \<Rightarrow> Inl err
      | Inr role \<Rightarrow>
          founder_loop I es
            (if list_ex (\<lambda>keyword. contains keyword role) founder_keywords
             then founder_roles @ [e]
             else founder_roles))"

definition check_repeat_founder :: "interp \<Rightarrow> profile \<Rightarrow> bool" where
  "check_repeat_founder I profile =
     (if experience profile = [] then False
      else (case founder_loop I (experience profile) [] of
              Inl e \<Rightarrow> False
            | Inr founder_roles \<Rightarrow> length founder_roles > 1))"

text \<open>
  The repeat-founder rule in the specification's words: an entry counts when its title, as
  text, contains one of the keywords as a substring, compared without regard to case.
\<close>

definition title_text :: "pydict \<Rightarrow> pystr" where
  "title_text e = (case dget e ''title'' (PStr []) of PStr t \<Rightarrow> t | _ \<Rightarrow> [])"

definition founder_titled :: "interp \<Rightarrow> pydict \<Rightarrow> bool" where
  "founder_titled I e =
     (\<exists>k \<in> set founder_keywords. sublist (lower I k) (lower I (title_text e)))"

definition titles_are_text :: "profile \<Rightarrow> bool" where
  "titles_are_text p = (\<forall>e \<in> set (experience p). \<exists>t. dget e ''title'' (PStr []) = PStr t)"

text \<open>\<^verbatim>\<open>str(v)\<close>, as an f-string formats a value.\<close>

fun str_of_nat :: "nat \<Rightarrow> pystr" where
  "str_of_nat n =
     (if n < 10 then [48 + n]
      else str_of_nat (n div 10) @ [48 + n mod 10])"

fun py_str :: "pyval \<Rightarrow> pystr" where
  "py_str PNone = str ''None''"
| "py_str (PStr t) = t"
| "py_str (PInt i) = (if i < 0 then of_char CHR ''-'' # str_of_nat (nat (- i)) else str_of_nat (nat i))"

text \<open>
  \<^verbatim>\<open>
    relevant_experiences = [exp for exp in experiences
                            if exp.get('company', '').lower() == search_company.lower()]
  \<close>
\<close>

fun relevant_experiences ::
  "interp \<Rightarrow> pydict list \<Rightarrow> pystr \<Rightarrow> pyerror + pydict list" where
  "relevant_experiences I [] search_company = Inr []"
| "relevant_experiences I (e # es) search_company =
     (case val_lower I (dget e ''company'' (PStr [])) of
        Inl err \<Rightarrow> Inl err
      | Inr c \<Rightarrow>
          (case relevant_experiences I es search_company of
             Inl err \<Rightarrow> Inl err
           | Inr r \<Rightarrow> Inr (if c = lower I search_company then e # r else r)))"

definition role_prompt :: string where
  "role_prompt = ''Please enter the role at company statement''"

text \<open>
  \<^verbatim>\<open>input(...)\<close> inside the \<^verbatim>\<open>try\<close> of \<^verbatim>\<open>extract_company_role\<close>: at end of input the
  \<^verbatim>\<open>except\<close> branch returns the empty string.
\<close>

definition ask_role :: "io \<Rightarrow> pystr \<times> io" where
  "ask_role s = (case py_input role_prompt s of
                   (Inl e, s') \<Rightarrow> ([], s')
                 | (Inr typed, s') \<Rightarrow> (typed, s'))"

text \<open>
  The branch without a match formats \<^verbatim>\<open>profile['full_name']\<close> into a log line before it
  asks; the subscript raises when the key is absent.
\<close>

definition extract_company_role ::
  "interp \<Rightarrow> profile \<Rightarrow> pystr \<Rightarrow> io \<Rightarrow> pystr \<times> io" where
  "extract_company_role I profile search_company s =
     (if experience profile = [] then ([], s)
      else (case relevant_experiences I (experience profile) search_company of
              Inl e \<Rightarrow> ([], s)
            | Inr [] \<Rightarrow>
                (case scalars profile ''full_name'' of
                   None \<Rightarrow> ([], s)
                 | Some _ \<Rightarrow> ask_role s)
            | Inr [m] \<Rightarrow>
                (let role = dget m ''title'' (PStr (str ''Unknown Role''));
                     duration = dget m ''duration'' (PStr (str ''Unknown Duration''))
                 in (py_str role @ str '' at '' @ search_company @ str '' for '' @ py_str duration, s))
            | Inr (_ # _ # _) \<Rightarrow> ask_role s))"

text \<open>
  The entries that the specification's rule selects: those whose company name, as text,
  equals the target company without regard to case.
\<close>

definition company_matches :: "interp \<Rightarrow> pystr \<Rightarrow> pydict \<Rightarrow> bool" where
  "company_matches I search_company e =
     (\<exists>c. dget e ''company'' (PStr []) = PStr c \<and> lower I c = lower I search_company)"

definition companies_are_text :: "profile \<Rightarrow> bool" where
  "companies_are_text p =
     (\<forall>e \<in> set (experience p). \<exists>c. dget e ''company'' (PStr []) = PStr c)"


section \<open>Sample inputs\<close>

text \<open>
  An interpreter for the examples: the default limit of 4300 digits and, of the Unicode
  tables, the capitals of Latin-1 and the Arabic-Indic digits.
\<close>

definition latin1_lower_char :: "nat \<Rightarrow> nat" where
  "latin1_lower_char c =
     (if (65 \<le> c \<and> c \<le> 90) \<or> (0xC0 \<le> c \<and> c \<le> 0xDE \<and> c \<noteq> 0xD7) then c + 32 else c)"

definition sample_interp :: interp where
  "sample_interp =
     \<lparr>str_lower = map latin1_lower_char,
      decimal = (\<lambda>c. if 0x660 \<le> c \<and> c \<le> 0x669 then Some (c - 0x660) else None),
      int_max_str_digits = 4300\<rparr>"

text \<open>A console on which the operator will type the given lines.\<close>

definition console :: "pystr list \<Rightarrow> io" where
  "console lines = \<lparr>stdin = lines, prompts = [], saved_examples = [], writable = True\<rparr>"

text \<open>
  The scenario of the specification: a later scrape of the stored sample profile in which only
  the duration of the most recent role has changed (the scraper of the refresh path returns
  neither \<open>previous_companies\<close> nor \<open>profile_status\<close>).
\<close>

definition later_scrape :: profile where
  "later_scrape =
     \<lparr>scalars = [''full_name'' \<mapsto> PStr (str ''Ada Byron''), ''first_name'' \<mapsto> PStr (str ''Ada''),
                 ''headline'' \<mapsto> PStr (str ''Engineer at Acme''), ''follower_count'' \<mapsto> PInt 120],
      experience = [engineer_at_acme(''duration'' \<mapsto> PStr (str ''1 yr 1 mo''))],
      education = [],
      previous_companies = []\<rparr>"

text \<open>Profiles with one and with two founder roles.\<close>

definition one_founder :: profile where
  "one_founder = \<lparr>scalars = [''full_name'' \<mapsto> PStr (str ''Ada Byron'')],
     experience = [[''title'' \<mapsto> PStr (str ''Founder''), ''company'' \<mapsto> PStr (str ''Acme'')]],
     education = [], previous_companies = [PStr (str ''Acme'')]\<rparr>"

definition two_founders :: profile where
  "two_founders = \<lparr>scalars = [''full_name'' \<mapsto> PStr (str ''Ada Byron'')],
     experience = [[''title'' \<mapsto> PStr (str ''Founder''), ''company'' \<mapsto> PStr (str ''Acme'')],
                   [''title'' \<mapsto> PStr (str ''Co-Founder''), ''company'' \<mapsto> PStr (str ''Bolt'')]],
     education = [], previous_companies = [PStr (str ''Acme''), PStr (str ''Bolt'')]\<rparr>"

text \<open>Two founder roles and a third entry whose title is \<^verbatim>\<open>None\<close> (a JSON null).\<close>

definition null_title_founder :: profile where
  "null_title_founder = \<lparr>scalars = [''full_name'' \<mapsto> PStr (str ''Ada Byron'')],
     experience = [[''title'' \<mapsto> PStr (str ''Founder''), ''company'' \<mapsto> PStr (str ''Acme'')],
                   [''title'' \<mapsto> PStr (str ''Co-Founder''), ''company'' \<mapsto> PStr (str ''Bolt'')],
                   [''title'' \<mapsto> PNone, ''company'' \<mapsto> PStr (str ''Cargo'')]],
     education = [], previous_companies = [PStr (str ''Acme''), PStr (str ''Bolt''), PStr (str ''Cargo'')]\<rparr>"

text \<open>
  A profile whose one role is at a company written with a non-ASCII capital
  (\<open>NESTL\<close> followed by U+00C9), and the same name in lower case (ending in U+00E9).
\<close>

definition analyst_at_nestle :: pydict where
  "analyst_at_nestle = [''title'' \<mapsto> PStr (str ''Analyst''),
     ''company'' \<mapsto> PStr (str ''NESTL'' @ [0xC9]), ''duration'' \<mapsto> PStr (str ''2 yrs'')]"

definition nestle_profile :: profile where
  "nestle_profile = \<lparr>scalars = [''full_name'' \<mapsto> PStr (str ''Ada Byron'')],
     experience = [analyst_at_nestle],
     education = [], previous_companies = [PStr (str ''NESTL'' @ [0xC9])]\<rparr>"

definition nestle_lower :: pystr where
  "nestle_lower = str ''nestl'' @ [0xE9]"

section \<open>Properties of the duration parser\<close>

lemma str_yr: "str ''yr'' = [121, 114]" and str_mo: "str ''mo'' = [109, 111]"
  and str_yrs: "str ''yrs'' = [121, 114, 115]" and str_mos: "str ''mos'' = [109, 111, 115]"
  by (simp_all add: str_def)

lemma is_digit_ascii_lower_char: "is_digit I (ascii_lower_char c) = is_digit I c"
  by (auto simp: is_digit_def ascii_lower_char_def)

lemma is_space_ascii_lower_char: "is_space (ascii_lower_char c) = is_space c"
  by (auto simp: is_space_def ascii_lower_char_def)

lemma ascii_lower_char_idem: "ascii_lower_char (ascii_lower_char c) = ascii_lower_char c"
  by (simp add: ascii_lower_char_def)

lemma digit_val_ascii_lower_char: "digit_val I (ascii_lower_char c) = digit_val I c"
  by (auto simp: digit_val_def is_digit_def ascii_lower_char_def)

lemma ascii_lower_idem: "ascii_lower (ascii_lower s) = ascii_lower s"
  by (simp add: ascii_lower_def ascii_lower_char_idem)

lemma takeWhile_digit_lower:
  "takeWhile (is_digit I) (ascii_lower s) = ascii_lower (takeWhile (is_digit I) s)"
  by (induction s) (simp_all add: ascii_lower_def is_digit_ascii_lower_char)

lemma dropWhile_digit_lower:
  "dropWhile (is_digit I) (ascii_lower s) = ascii_lower (dropWhile (is_digit I) s)"
  by (induction s) (simp_all add: ascii_lower_def is_digit_ascii_lower_char)

lemma dropWhile_space_lower:
  "dropWhile is_space (ascii_lower s) = ascii_lower (dropWhile is_space s)"
  by (induction s) (simp_all add: ascii_lower_def is_space_ascii_lower_char)

lemma match_at_lower:
  "match_at I (ascii_lower s)
     = map_option (\<lambda>(t, r). (lower_tok t, ascii_lower r)) (match_at I s)"
proof -
  define r where "r = dropWhile is_space (dropWhile (is_digit I) s)"
  have r': "dropWhile is_space (dropWhile (is_digit I) (ascii_lower s)) = ascii_lower r"
    by (simp add: r_def dropWhile_digit_lower dropWhile_space_lower)
  have n': "takeWhile (is_digit I) (ascii_lower s) = ascii_lower (takeWhile (is_digit I) s)"
    by (rule takeWhile_digit_lower)
  have e: "(ascii_lower xs = []) = (xs = [])" for xs by (simp add: ascii_lower_def)
  show ?thesis
  proof (cases r)
    case Nil
    then show ?thesis
      unfolding match_at_def Let_def r' n' e r_def [symmetric] by (simp add: ascii_lower_def)
  next
    case (Cons a r1)
    show ?thesis
    proof (cases r1)
      case Nil
      with Cons show ?thesis
        unfolding match_at_def Let_def r' n' e r_def [symmetric] by (simp add: ascii_lower_def)
    next
      case (Cons b rest)
      with \<open>r = a # r1\<close> have "r = a # b # rest" by simp
      then show ?thesis
        unfolding match_at_def Let_def r' n' e r_def [symmetric]
        by (simp add: ascii_lower_def lower_tok_def ascii_lower_char_idem)
    qed
  qed
qed

lemma findall_lower: "findall I (ascii_lower s) = map lower_tok (findall I s)"
proof (induction I s rule: findall.induct)
  case (1 I)
  then show ?case by (simp add: ascii_lower_def)
next
  case (2 I c cs)
  show ?case
  proof (cases "match_at I (c # cs)")
    case None
    then have "match_at I (ascii_lower (c # cs)) = None" by (simp add: match_at_lower)
    then have "findall I (ascii_lower (c # cs)) = findall I (ascii_lower cs)"
      by (simp add: ascii_lower_def)
    with None 2 show ?thesis by simp
  next
    case (Some x)
    obtain t r where x: "x = (t, r)" by (cases x)
    with Some have "match_at I (ascii_lower (c # cs)) = Some (lower_tok t, ascii_lower r)"
      by (simp add: match_at_lower)
    then have "findall I (ascii_lower (c # cs)) = lower_tok t # findall I (ascii_lower r)"
      by (simp add: ascii_lower_def)
    with Some x 2 show ?thesis by simp
  qed
qed

lemma digits_value_lower: "digits_value I (ascii_lower ds) = digits_value I ds"
proof -
  have "foldl (\<lambda>n d. 10 * n + digit_val I d) a (map ascii_lower_char ds)
        = foldl (\<lambda>n d. 10 * n + digit_val I d) a ds" for a
    by (induction ds arbitrary: a) (simp_all add: digit_val_ascii_lower_char)
  then show ?thesis by (simp add: digits_value_def ascii_lower_def)
qed

lemma py_int_lower: "py_int I (ascii_lower ds) = py_int I ds"
  by (simp add: py_int_def digits_value_lower) (simp add: ascii_lower_def)

lemma lower_unit:
  assumes "ascii_lower u = str ''yr'' \<or> ascii_lower u = str ''mo''"
  shows "lower I u = ascii_lower u"
proof -
  from assms obtain a b where u: "u = [a, b]"
    and ab: "ascii_lower_char a = 121 \<or> ascii_lower_char a = 109"
      "ascii_lower_char b = 114 \<or> ascii_lower_char b = 111"
    by (auto simp: ascii_lower_def str_yr str_mo)
  from ab have "a < 128" "b < 128" by (auto simp: ascii_lower_char_def split: if_splits)
  with u show ?thesis by (simp add: lower_def)
qed

lemma months_loop_lower:
  "\<forall>t\<in>set ms. ascii_lower (snd t) = str ''yr'' \<or> ascii_lower (snd t) = str ''mo'' \<Longrightarrow>
   months_loop I (map lower_tok ms) tot = months_loop I ms tot"
proof (induction ms arbitrary: tot)
  case Nil
  show ?case by simp
next
  case (Cons t ms)
  obtain n u where t: "t = (n, u)" by (cases t)
  from Cons.prems t have u: "ascii_lower u = str ''yr'' \<or> ascii_lower u = str ''mo''" by simp
  then have u': "ascii_lower (ascii_lower u) = str ''yr'' \<or> ascii_lower (ascii_lower u) = str ''mo''"
    by (simp add: ascii_lower_idem)
  from Cons.prems have r: "\<forall>t\<in>set ms. ascii_lower (snd t) = str ''yr''
      \<or> ascii_lower (snd t) = str ''mo''" by simp
  show ?case
    using Cons.IH [OF r]
    by (simp add: t lower_tok_def py_int_lower lower_unit [OF u] lower_unit [OF u']
          ascii_lower_idem Let_def split: sum.splits)
qed

lemma match_at_token:
  assumes "match_at I s = Some ((n, u), r)"
  shows "n \<noteq> [] \<and> (\<forall>c\<in>set n. is_digit I c)
         \<and> (ascii_lower u = str ''yr'' \<or> ascii_lower u = str ''mo'')"
proof -
  from assms have n: "n = takeWhile (is_digit I) s" and ne: "n \<noteq> []"
    and u: "ascii_lower u = str ''yr'' \<or> ascii_lower u = str ''mo''"
    by (auto simp: match_at_def Let_def split: if_splits list.splits)
  from n have "\<forall>c\<in>set n. is_digit I c" by (auto dest: set_takeWhileD)
  with ne u show ?thesis by simp
qed

lemma findall_tokens:
  "(n, u) \<in> set (findall I s) \<Longrightarrow>
     n \<noteq> [] \<and> (\<forall>c\<in>set n. is_digit I c)
     \<and> (ascii_lower u = str ''yr'' \<or> ascii_lower u = str ''mo'')"
proof (induction I s rule: findall.induct)
  case (1 I)
  then show ?case by simp
next
  case (2 I c cs)
  show ?case
  proof (cases "match_at I (c # cs)")
    case None
    with 2 show ?thesis by simp
  next
    case (Some x)
    obtain n' u' r where x: "x = ((n', u'), r)" by (cases x) auto
    from "2.prems" Some x have "(n, u) = (n', u') \<or> (n, u) \<in> set (findall I r)" by simp
    then show ?thesis
    proof
      assume "(n, u) = (n', u')"
      with Some x match_at_token [of I "c # cs" n u r] show ?thesis by simp
    next
      assume "(n, u) \<in> set (findall I r)"
      with "2.IH"(2) [OF Some, of "(n', u')" r] x show ?thesis by simp
    qed
  qed
qed

lemma findall_units:
  "\<forall>t\<in>set (findall I s). ascii_lower (snd t) = str ''yr'' \<or> ascii_lower (snd t) = str ''mo''"
proof
  fix t assume "t \<in> set (findall I s)"
  then have "(fst t, snd t) \<in> set (findall I s)" by simp
  from findall_tokens [OF this]
  show "ascii_lower (snd t) = str ''yr'' \<or> ascii_lower (snd t) = str ''mo''" by simp
qed

lemma parse_duration_lower: "parse_duration I (ascii_lower s) = parse_duration I s"
  by (simp add: parse_duration_def findall_lower months_loop_lower [OF findall_units])

lemma months_loop_sum:
  "\<forall>t\<in>set ms. ascii_lower (snd t) = str ''yr'' \<or> ascii_lower (snd t) = str ''mo'' \<Longrightarrow>
   months_loop I ms tot
     = (if within_limit I ms then Inr (tot + duration_spec I ms) else Inl ValueError)"
proof (induction ms arbitrary: tot)
  case Nil
  show ?case by (simp add: duration_spec_def within_limit_def)
next
  case (Cons t ms)
  obtain n u where t: "t = (n, u)" by (cases t)
  from Cons.prems t have u: "ascii_lower u = str ''yr'' \<or> ascii_lower u = str ''mo''" by simp
  from Cons.prems have r: "\<forall>t\<in>set ms. ascii_lower (snd t) = str ''yr''
      \<or> ascii_lower (snd t) = str ''mo''" by simp
  note IH = Cons.IH [OF r]
  show ?case
  proof (cases "0 < int_max_str_digits I \<and> int_max_str_digits I < length n")
    case True
    then have "\<not> within_limit I (t # ms)" by (auto simp: within_limit_def t)
    with True show ?thesis by (simp add: t py_int_def)
  next
    case False
    then have p: "py_int I n = Inr (digits_value I n)" by (simp add: py_int_def)
    from False have w: "within_limit I ((n, u) # ms) = within_limit I ms"
      by (auto simp: within_limit_def)
    from u show ?thesis
    proof
      assume "ascii_lower u = str ''yr''"
      then show ?thesis
        by (simp add: t p w IH lower_unit [OF u] Let_def startswith_def duration_spec_def
              token_months_def str_yr str_mo str_yrs str_mos)
    next
      assume "ascii_lower u = str ''mo''"
      then show ?thesis
        by (simp add: t p w IH lower_unit [OF u] Let_def startswith_def duration_spec_def
              token_months_def str_yr str_mo str_yrs str_mos)
    qed
  qed
qed

lemma parse_duration_sum:
  "parse_duration I s
     = (if within_limit I (findall I s) then Inr (duration_spec I (findall I s))
        else Inl ValueError)"
  by (simp add: parse_duration_def months_loop_sum [OF findall_units])

lemma findall_skip: "\<not> is_digit I c \<Longrightarrow> findall I (c # cs) = findall I cs"
  by (simp add: match_at_def)

lemma findall_junk:
  "\<forall>c\<in>set junk. \<not> is_digit I c \<Longrightarrow> findall I (junk @ s) = findall I s"
  by (induction junk) (simp_all add: findall_skip del: findall.simps)

lemma unit_head:
  assumes "ascii_lower u \<in> {str ''yr'', str ''yrs'', str ''mo'', str ''mos''}"
  obtains a b t where "u = a # b # t"
    "ascii_lower [a, b] = str ''yr'' \<or> ascii_lower [a, b] = str ''mo''"
    "t = [] \<or> (\<exists>c. t = [c] \<and> \<not> is_digit I c)"
    "\<not> is_digit I a" "\<not> is_space a"
proof -
  have nd: "ascii_lower_char c = d \<Longrightarrow> \<not> is_digit I d \<Longrightarrow> \<not> is_digit I c" for c d
    using is_digit_ascii_lower_char [of I c] by simp
  have ns: "ascii_lower_char c = d \<Longrightarrow> \<not> is_space d \<Longrightarrow> \<not> is_space c" for c d
    using is_space_ascii_lower_char [of c] by simp
  have y: "\<not> is_digit I 121" "\<not> is_space 121" "\<not> is_digit I 109"
    "\<not> is_space 109" "\<not> is_digit I 115"
    by (simp_all add: is_digit_def is_space_def)
  from assms show ?thesis
    by (auto simp: ascii_lower_def str_yr str_mo str_yrs str_mos intro!: that
          dest: nd [OF _ y(1)] nd [OF _ y(3)] nd [OF _ y(5)] ns [OF _ y(2)] ns [OF _ y(4)])
qed

lemma findall_token_step:
  assumes n: "number \<noteq> []" "\<forall>c\<in>set number. is_digit I c"
    and w: "\<forall>c\<in>set ws. is_space c \<and> \<not> is_digit I c"
    and u: "ascii_lower u \<in> {str ''yr'', str ''yrs'', str ''mo'', str ''mos''}"
  shows "findall I (number @ ws @ u @ rest) = (number, take 2 u) # findall I rest"
proof -
  from u obtain a b t where ab: "u = a # b # t"
    "ascii_lower [a, b] = str ''yr'' \<or> ascii_lower [a, b] = str ''mo''"
    "t = [] \<or> (\<exists>c. t = [c] \<and> \<not> is_digit I c)" "\<not> is_digit I a" "\<not> is_space a"
    by (rule unit_head)
  have hd_nd: "ws @ u @ rest = x # xs \<Longrightarrow> \<not> is_digit I x" for x xs
    using w ab(1,4) by (cases ws) auto
  obtain x xs where wx: "ws @ u @ rest = x # xs" using ab(1) by (cases ws) auto
  have tw: "takeWhile (is_digit I) (number @ ws @ u @ rest) = number"
    using n(2) hd_nd [OF wx] by (simp add: wx takeWhile_tail)
  have dw: "dropWhile (is_digit I) (number @ ws @ u @ rest) = ws @ u @ rest"
    using n(2) hd_nd [OF wx] by (simp add: wx dropWhile_append3)
  have ds: "dropWhile is_space (ws @ u @ rest) = a # b # t @ rest"
    using w ab(1,5) by simp
  have m: "match_at I (number @ ws @ u @ rest) = Some ((number, [a, b]), t @ rest)"
    using n(1) ab(2) by (simp add: match_at_def Let_def tw dw ds)
  obtain d dsx where nd: "number = d # dsx" using n(1) by (cases number) auto
  have "findall I (number @ ws @ u @ rest) = (number, [a, b]) # findall I (t @ rest)"
    using m unfolding nd by simp
  moreover have "findall I (t @ rest) = findall I rest"
    using ab(3) by (auto simp: findall_skip simp del: findall.simps)
  ultimately show ?thesis using ab(1) by simp
qed

lemma token_months_take2:
  "ascii_lower u \<in> {str ''yr'', str ''yrs'', str ''mo'', str ''mos''} \<Longrightarrow>
   token_months I (n, take 2 u) = token_months I (n, u)"
  by (auto simp: token_months_def ascii_lower_def str_yr str_mo str_yrs str_mos)

lemma parse_duration_token_step:
  assumes "number \<noteq> []" "\<forall>c\<in>set number. is_digit I c"
    "\<forall>c\<in>set ws. is_space c \<and> \<not> is_digit I c"
    "ascii_lower u \<in> {str ''yr'', str ''yrs'', str ''mo'', str ''mos''}"
  shows "parse_duration I (number @ ws @ u @ rest)
           = (if 0 < int_max_str_digits I \<and> int_max_str_digits I < length number
              then Inl ValueError
              else (case parse_duration I rest of
                      Inl e \<Rightarrow> Inl e
                    | Inr m \<Rightarrow> Inr (token_months I (number, u) + m)))"
proof -
  have w: "within_limit I ((number, take 2 u) # findall I rest)
     = (\<not> (0 < int_max_str_digits I \<and> int_max_str_digits I < length number)
        \<and> within_limit I (findall I rest))"
    by (auto simp: within_limit_def)
  show ?thesis
    using token_months_take2 [OF assms(4), of I number]
    by (simp add: parse_duration_sum findall_token_step [OF assms] duration_spec_def w)
qed

text \<open>
  What \<^verbatim>\<open>parse_duration\<close> computes. It raises exactly when a matched number has more
  digits than \<^verbatim>\<open>int()\<close> converts; otherwise it returns the sum, over the tokens that the
  pattern matches, of the number times 12 for a year unit and of the number for a month unit.
  A token is a non-empty run of decimal digits, optional whitespace and one of the units yr,
  yrs, mo, mos in any case; text without digits in front of a token is skipped; an input
  without a match, the empty string among them, gives 0; the case of the input does not
  matter.
\<close>

lemma parse_duration_sums_tokens:
  "parse_duration I s
     = (if within_limit I (findall I s) then Inr (duration_spec I (findall I s))
        else Inl ValueError)
   \<and> (\<forall>(n, u) \<in> set (findall I s).
          n \<noteq> [] \<and> (\<forall>c\<in>set n. is_digit I c)
          \<and> (ascii_lower u = str ''yr'' \<or> ascii_lower u = str ''mo''))
   \<and> (digits_apart I \<and> number \<noteq> [] \<and> (\<forall>c\<in>set number. is_digit I c)
        \<and> (\<forall>c\<in>set ws. is_space c)
        \<and> ascii_lower u \<in> {str ''yr'', str ''yrs'', str ''mo'', str ''mos''}
        \<and> (int_max_str_digits I = 0 \<or> length number \<le> int_max_str_digits I)
        \<longrightarrow> parse_duration I (number @ ws @ u @ rest)
            = (case parse_duration I rest of
                 Inl e \<Rightarrow> Inl e
               | Inr m \<Rightarrow> Inr (token_months I (number, u) + m)))
   \<and> ((\<forall>c\<in>set junk. \<not> is_digit I c) \<longrightarrow>
        parse_duration I (junk @ s) = parse_duration I s)
   \<and> (findall I s = [] \<longrightarrow> parse_duration I s = Inr 0)
   \<and> parse_duration I (ascii_lower s) = parse_duration I s
   \<and> parse_duration I [] = Inr 0"
proof -
  have a: "parse_duration I s
     = (if within_limit I (findall I s) then Inr (duration_spec I (findall I s))
        else Inl ValueError)" by (rule parse_duration_sum)
  have b: "\<forall>(n, u) \<in> set (findall I s).
          n \<noteq> [] \<and> (\<forall>c\<in>set n. is_digit I c)
          \<and> (ascii_lower u = str ''yr'' \<or> ascii_lower u = str ''mo'')"
    using findall_tokens [of _ _ I s] by blast
  have c: "digits_apart I \<and> number \<noteq> [] \<and> (\<forall>c\<in>set number. is_digit I c)
        \<and> (\<forall>c\<in>set ws. is_space c)
        \<and> ascii_lower u \<in> {str ''yr'', str ''yrs'', str ''mo'', str ''mos''}
        \<and> (int_max_str_digits I = 0 \<or> length number \<le> int_max_str_digits I)
        \<longrightarrow> parse_duration I (number @ ws @ u @ rest)
            = (case parse_duration I rest of
                 Inl e \<Rightarrow> Inl e
               | Inr m \<Rightarrow> Inr (token_months I (number, u) + m))"
  proof
    assume h: "digits_apart I \<and> number \<noteq> [] \<and> (\<forall>c\<in>set number. is_digit I c)
        \<and> (\<forall>c\<in>set ws. is_space c)
        \<and> ascii_lower u \<in> {str ''yr'', str ''yrs'', str ''mo'', str ''mos''}
        \<and> (int_max_str_digits I = 0 \<or> length number \<le> int_max_str_digits I)"
    then have w: "\<forall>c\<in>set ws. is_space c \<and> \<not> is_digit I c"
      by (auto simp: digits_apart_def)
    from h have l: "\<not> (0 < int_max_str_digits I \<and> int_max_str_digits I < length number)"
      by auto
    from h have 1: "number \<noteq> []" and 2: "\<forall>c\<in>set number. is_digit I c"
      and 4: "ascii_lower u \<in> {str ''yr'', str ''yrs'', str ''mo'', str ''mos''}"
      by blast+
    from parse_duration_token_step [OF 1 2 w 4, of rest] l
    show "parse_duration I (number @ ws @ u @ rest)
            = (case parse_duration I rest of
                 Inl e \<Rightarrow> Inl e
               | Inr m \<Rightarrow> Inr (token_months I (number, u) + m))"
      by simp
  qed
  have d: "(\<forall>c\<in>set junk. \<not> is_digit I c) \<longrightarrow>
        parse_duration I (junk @ s) = parse_duration I s"
    by (simp add: parse_duration_def findall_junk)
  have e: "findall I s = [] \<longrightarrow> parse_duration I s = Inr 0" by (simp add: parse_duration_def)
  have f: "parse_duration I (ascii_lower s) = parse_duration I s" by (rule parse_duration_lower)
  have g: "parse_duration I [] = Inr 0" by (simp add: parse_duration_def)
  from a b c d e f g show ?thesis by blast
qed

text \<open>
  The sample durations of the specification, and durations written with a no-break space,
  a next-line character and an Arabic-Indic digit.
\<close>

lemma parse_duration_samples:
  "parse_duration sample_interp (str ''2 yrs 3 mos'') = Inr 27
   \<and> parse_duration sample_interp (str '''') = Inr 0
   \<and> parse_duration sample_interp (str ''5 mo'') = Inr 5
   \<and> parse_duration sample_interp (str ''1 yr'') = Inr 12
   \<and> parse_duration sample_interp (str ''1 YR 2 MOS'')
       = parse_duration sample_interp (str ''1yr 2mos'')
   \<and> parse_duration sample_interp (str ''1'' @ [0xA0] @ str ''yr'') = Inr 12
   \<and> parse_duration sample_interp (str ''2'' @ [0x85] @ str ''MOS'') = Inr 2
   \<and> parse_duration sample_interp ([0x663] @ str '' yrs'') = Inr 36"
  by code_simp

text \<open>
  C9 does not hold of the code for every input string. \<^verbatim>\<open>int()\<close> raises
  \<^verbatim>\<open>ValueError\<close> for a number with more digits than the interpreter's limit (4300 unless
  configured), and \<^verbatim>\<open>parse_duration\<close> has no handler for it: an input that starts with a
  token whose number is that long makes the call raise instead of returning a sum.
\<close>

theorem parse_duration_overlong_number:
  assumes "0 < int_max_str_digits I" and "int_max_str_digits I < length number"
    and "\<forall>c\<in>set number. is_digit I c"
    and "ascii_lower u \<in> {str ''yr'', str ''yrs'', str ''mo'', str ''mos''}"
  shows "parse_duration I (number @ u @ rest) = Inl ValueError"
proof -
  from assms(1,2) have 1: "number \<noteq> []" by auto
  have 3: "\<forall>c\<in>set ([] :: pystr). is_space c \<and> \<not> is_digit I c" by simp
  from parse_duration_token_step [OF 1 assms(3) 3 assms(4), of rest] assms(1,2)
  show ?thesis by simp
qed

theorem parse_duration_overlong_number_witness:
  "parse_duration sample_interp (replicate 4301 (of_char CHR ''9'') @ str ''yr'')
     = Inl ValueError"
proof -
  let ?n = "replicate 4301 (of_char CHR ''9'' :: nat)"
  have 1: "0 < int_max_str_digits sample_interp" by (simp add: sample_interp_def)
  have 2: "int_max_str_digits sample_interp < length ?n" by (simp add: sample_interp_def)
  have 3: "\<forall>c\<in>set ?n. is_digit sample_interp c" by (simp add: is_digit_def)
  have 4: "ascii_lower (str ''yr'') \<in> {str ''yr'', str ''yrs'', str ''mo'', str ''mos''}"
    by (simp add: ascii_lower_def ascii_lower_char_def str_yr)
  from parse_duration_overlong_number [OF 1 2 3 4, of "[]"] show ?thesis by simp
qed

section \<open>Properties of the change detector\<close>

lemma compare_profile_changes_split:
  "compare_profile_changes a b =
     (let c4 = upto_education a b in
      if set (previous_companies a) \<noteq> set (companies_of (experience b))
      then record_change ''previous_companies'' (Companies (set (previous_companies a)))
             (Companies (set (companies_of (experience b)))) c4
      else c4)"
  by (simp add: compare_profile_changes_def upto_education_def empty_changeset_def Let_def)

lemma cs_ok_record_change: "cs_ok (record_change f x y c)"
  by (simp add: cs_ok_def record_change_def)

lemma cs_ok_compare_fields: "cs_ok c \<Longrightarrow> cs_ok (compare_fields pre fs od nd c)"
  by (induction fs arbitrary: c) (simp_all add: Let_def cs_ok_record_change)

lemma cs_ok_upto_education: "cs_ok (upto_education a b)"
proof -
  have 0: "cs_ok empty_changeset" by (simp add: cs_ok_def empty_changeset_def)
  show ?thesis
    unfolding upto_education_def Let_def
    by (auto simp: cs_ok_record_change cs_ok_compare_fields 0 split: list.splits)
qed

lemma cs_ok_compare: "cs_ok (compare_profile_changes a b)"
  by (simp add: compare_profile_changes_split Let_def cs_ok_record_change cs_ok_upto_education)

lemma compare_fields_same: "compare_fields pre fs d d c = c"
  by (induction fs) simp_all

lemma upto_education_same: "upto_education p p = empty_changeset"
  by (simp add: upto_education_def Let_def compare_fields_same split: list.splits)

lemma compare_same:
  "compare_profile_changes p p =
     (if companies_derived p then empty_changeset
      else record_change ''previous_companies'' (Companies (set (previous_companies p)))
             (Companies (set (companies_of (experience p)))) empty_changeset)"
  by (simp add: compare_profile_changes_split upto_education_same companies_derived_def)

lemma swap_record_change:
  "swap_changeset (record_change f x y c) = record_change f y x (swap_changeset c)"
  by (simp add: swap_changeset_def record_change_def swap_delta_def fun_eq_iff)

lemma swap_compare_fields:
  "compare_fields pre fs nd od (swap_changeset c) = swap_changeset (compare_fields pre fs od nd c)"
proof (induction fs arbitrary: c)
  case Nil
  show ?case by simp
next
  case (Cons f fs)
  show ?case
  proof (cases "dget od f (PStr []) = dget nd f (PStr [])")
    case True
    with Cons show ?thesis by simp
  next
    case False
    then have "dget nd f (PStr []) \<noteq> dget od f (PStr [])" by auto
    with False Cons [of "record_change (pre @ f) (Val (dget od f (PStr [])))
       (Val (dget nd f (PStr []))) c"]
    show ?thesis by (simp add: swap_record_change)
  qed
qed

lemma swap_empty: "swap_changeset empty_changeset = empty_changeset"
  by (simp add: swap_changeset_def empty_changeset_def)

lemma swap_upto_education: "upto_education b a = swap_changeset (upto_education a b)"
proof -
  define c1 where
    "c1 = compare_fields '''' simple_fields (scalars a) (scalars b) empty_changeset"
  define c1' where
    "c1' = compare_fields '''' simple_fields (scalars b) (scalars a) empty_changeset"
  define c2 where
    "c2 = (if length (experience a) \<noteq> length (experience b)
           then record_change ''experience_count'' (py_len (experience a))
                  (py_len (experience b)) c1
           else c1)"
  define c2' where
    "c2' = (if length (experience b) \<noteq> length (experience a)
           then record_change ''experience_count'' (py_len (experience b))
                  (py_len (experience a)) c1'
           else c1')"
  define c3 where
    "c3 = (case (experience a, experience b) of
             (old0 # _, new0 # _) \<Rightarrow>
               compare_fields ''recent_experience_'' exp_fields old0 new0 c2
           | _ \<Rightarrow> c2)"
  define c3' where
    "c3' = (case (experience b, experience a) of
             (old0 # _, new0 # _) \<Rightarrow>
               compare_fields ''recent_experience_'' exp_fields old0 new0 c2'
           | _ \<Rightarrow> c2')"
  have 1: "c1' = swap_changeset c1"
    using swap_compare_fields [of "''''" simple_fields "scalars b" "scalars a" empty_changeset]
    by (simp add: c1_def c1'_def swap_empty)
  have 2: "c2' = swap_changeset c2"
  proof (cases "length (experience a) = length (experience b)")
    case True
    then show ?thesis by (simp add: c2_def c2'_def 1)
  next
    case False
    then have "length (experience b) \<noteq> length (experience a)" by auto
    with False show ?thesis by (simp add: c2_def c2'_def 1 swap_record_change)
  qed
  have 3: "c3' = swap_changeset c3"
  proof (cases "experience a")
    case Nil
    then show ?thesis by (simp add: c3_def c3'_def 2 split: list.splits)
  next
    case ea: (Cons x xs)
    show ?thesis
    proof (cases "experience b")
      case Nil
      with ea show ?thesis by (simp add: c3_def c3'_def 2)
    next
      case (Cons y ys)
      with ea show ?thesis
        by (simp add: c3_def c3'_def 2 swap_compare_fields)
    qed
  qed
  have u: "upto_education a b =
     (if length (education a) \<noteq> length (education b)
      then record_change ''education_count'' (py_len (education a)) (py_len (education b)) c3
      else c3)"
    unfolding upto_education_def Let_def c3_def c2_def c1_def by (rule refl)
  have u': "upto_education b a =
     (if length (education b) \<noteq> length (education a)
      then record_change ''education_count'' (py_len (education b)) (py_len (education a)) c3'
      else c3')"
    unfolding upto_education_def Let_def c3'_def c2'_def c1'_def by (rule refl)
  show ?thesis
  proof (cases "length (education a) = length (education b)")
    case True
    then show ?thesis by (simp add: u u' 3)
  next
    case False
    then have "length (education b) \<noteq> length (education a)" by auto
    with False show ?thesis by (simp add: u u' 3 swap_record_change)
  qed
qed

lemma swap_compare:
  assumes "companies_derived a" "companies_derived b"
  shows "compare_profile_changes b a = swap_changeset (compare_profile_changes a b)"
proof -
  from assms have pa: "set (previous_companies a) = set (companies_of (experience a))"
    and pb: "set (previous_companies b) = set (companies_of (experience b))"
    by (simp_all add: companies_derived_def)
  have u: "upto_education b a = swap_changeset (upto_education a b)"
    by (rule swap_upto_education)
  show ?thesis
  proof (cases "set (companies_of (experience a)) = set (companies_of (experience b))")
    case True
    then show ?thesis
      unfolding compare_profile_changes_split Let_def pa pb u by simp
  next
    case False
    then have "set (companies_of (experience b)) \<noteq> set (companies_of (experience a))"
      by auto
    with False show ?thesis
      unfolding compare_profile_changes_split Let_def pa pb u
      by (simp add: swap_record_change)
  qed
qed

lemma set_compare_fields:
  "set (changed_fields (compare_fields pre fs od nd c))
     \<subseteq> set (changed_fields c) \<union> (\<lambda>f. pre @ f) ` set fs"
proof (induction fs arbitrary: c)
  case Nil
  show ?case by simp
next
  case (Cons f fs)
  show ?case
    using Cons [of c]
      Cons [of "record_change (pre @ f) (Val (dget od f (PStr []))) (Val (dget nd f (PStr []))) c"]
    by (auto simp: Let_def record_change_def)
qed

lemma dom_record_change:
  "dom (changes c) = set (changed_fields c) \<Longrightarrow>
   dom (changes (record_change f x y c)) = set (changed_fields (record_change f x y c))"
  by (auto simp: record_change_def)

lemma dom_compare_fields:
  "dom (changes c) = set (changed_fields c) \<Longrightarrow>
   dom (changes (compare_fields pre fs od nd c))
     = set (changed_fields (compare_fields pre fs od nd c))"
  by (induction fs arbitrary: c) (simp_all add: Let_def dom_record_change)

lemma dom_upto_education:
  "dom (changes (upto_education a b)) = set (changed_fields (upto_education a b))"
proof -
  have 0: "dom (changes empty_changeset) = set (changed_fields empty_changeset)"
    by (simp add: empty_changeset_def)
  show ?thesis
    unfolding upto_education_def Let_def
    by (auto simp only: dom_record_change dom_compare_fields 0 split: list.splits if_splits prod.splits)
qed

lemma dom_compare:
  "dom (changes (compare_profile_changes a b)) = set (changed_fields (compare_profile_changes a b))"
  unfolding compare_profile_changes_split Let_def
  using dom_upto_education [of a b] by (simp add: dom_record_change)

lemma upto_education_no_recent:
  assumes "experience a = [] \<or> experience b = []"
  shows "set (changed_fields (upto_education a b))
           \<subseteq> set simple_fields \<union> {''experience_count'', ''education_count''}"
proof -
  have c1: "set (changed_fields (compare_fields '''' simple_fields (scalars a) (scalars b)
              empty_changeset)) \<subseteq> set simple_fields"
    using set_compare_fields [of "''''" simple_fields "scalars a" "scalars b" empty_changeset]
    by (simp add: empty_changeset_def)
  from assms have c3: "(case (experience a, experience b) of
                  (old0 # _, new0 # _) \<Rightarrow>
                    compare_fields ''recent_experience_'' exp_fields old0 new0 c2
                | _ \<Rightarrow> c2) = c2" for c2
    by (auto split: list.splits)
  show ?thesis
    unfolding upto_education_def Let_def c3
    using c1 by (auto simp: record_change_def)
qed

lemma compare_no_recent:
  assumes "experience a = [] \<or> experience b = []"
  shows "set (changed_fields (compare_profile_changes a b))
           \<subseteq> set simple_fields \<union> {''experience_count'', ''education_count'',
                                     ''previous_companies''}"
  unfolding compare_profile_changes_split Let_def
  using upto_education_no_recent [OF assms] by (auto simp: record_change_def)

lemma mono_compare_fields:
  "set (changed_fields c) \<subseteq> set (changed_fields (compare_fields pre fs od nd c))"
proof (induction fs arbitrary: c)
  case Nil
  show ?case by simp
next
  case (Cons f fs)
  show ?case
    using Cons [of c]
      Cons [of "record_change (pre @ f) (Val (dget od f (PStr []))) (Val (dget nd f (PStr []))) c"]
    by (auto simp: Let_def record_change_def)
qed

lemma experience_count_recorded:
  assumes "length (experience a) \<noteq> length (experience b)"
  shows "''experience_count'' \<in> set (changed_fields (compare_profile_changes a b))"
proof -
  define c1 where
    "c1 = compare_fields '''' simple_fields (scalars a) (scalars b) empty_changeset"
  define c2 where
    "c2 = (if length (experience a) \<noteq> length (experience b)
           then record_change ''experience_count'' (py_len (experience a))
                  (py_len (experience b)) c1
           else c1)"
  define c3 where
    "c3 = (case (experience a, experience b) of
             (old0 # _, new0 # _) \<Rightarrow>
               compare_fields ''recent_experience_'' exp_fields old0 new0 c2
           | _ \<Rightarrow> c2)"
  have m: "''experience_count'' \<in> set (changed_fields c2)"
    using assms by (simp add: c2_def record_change_def)
  have m3: "''experience_count'' \<in> set (changed_fields c3)"
    unfolding c3_def using m mono_compare_fields [of c2] by (fastforce split: list.splits)
  have u: "upto_education a b =
     (if length (education a) \<noteq> length (education b)
      then record_change ''education_count'' (py_len (education a)) (py_len (education b)) c3
      else c3)"
    unfolding upto_education_def Let_def c3_def c2_def c1_def by (rule refl)
  have "''experience_count'' \<in> set (changed_fields (upto_education a b))"
    using m3 by (simp add: u record_change_def)
  then show ?thesis
    unfolding compare_profile_changes_split Let_def by (auto simp: record_change_def)
qed

text \<open>
  C6. For every pair of profiles the returned change-set has \<open>has_changes\<close> true exactly
  when \<open>changed_fields\<close> is non-empty.
\<close>

theorem has_changes_iff_changed_fields:
  "has_changes (compare_profile_changes old_profile new_profile)
     \<longleftrightarrow> changed_fields (compare_profile_changes old_profile new_profile) \<noteq> []"
  using cs_ok_compare [of old_profile new_profile] by (simp add: cs_ok_def)

theorem has_changes_iff_changed_fields_witness:
  "has_changes (compare_profile_changes stored_profile promoted_profile)
   \<and> changed_fields (compare_profile_changes stored_profile promoted_profile)
       = [''follower_count'', ''recent_experience_title'']"
proof -
  have "changed_fields (compare_profile_changes stored_profile promoted_profile)
       = [''follower_count'', ''recent_experience_title'']" by code_simp
  with has_changes_iff_changed_fields [of stored_profile promoted_profile]
  show ?thesis by simp
qed

text \<open>
  C4. A Profile of the specification's data model carries as \<open>previous_companies\<close> the
  non-empty company names of its own experience. Comparing such a profile with itself
  reports no change: \<open>has_changes\<close> is false, and \<open>changed_fields\<close> and \<open>changes\<close> are
  empty.
\<close>

theorem compare_with_itself:
  assumes "companies_derived p"
  shows "\<not> has_changes (compare_profile_changes p p)
         \<and> changed_fields (compare_profile_changes p p) = []
         \<and> changes (compare_profile_changes p p) = Map.empty"
  using assms by (simp add: compare_same empty_changeset_def)

theorem compare_with_itself_witness:
  "companies_derived stored_profile
   \<and> \<not> has_changes (compare_profile_changes stored_profile stored_profile)
   \<and> changed_fields (compare_profile_changes stored_profile stored_profile) = []"
proof -
  have "companies_derived stored_profile" by code_simp
  with compare_with_itself [of stored_profile] show ?thesis by blast
qed

text \<open>
  C5. For two Profiles of the specification's data model, swapping the old and the new
  profile gives the same \<open>changed_fields\<close>, in the same order, and the same entries of
  \<open>changes\<close> with the old and the new value of every entry swapped.
\<close>

theorem compare_swapped:
  assumes "companies_derived a" and "companies_derived b"
  shows "changed_fields (compare_profile_changes b a)
           = changed_fields (compare_profile_changes a b)
         \<and> (\<forall>f. changes (compare_profile_changes b a) f
                  = map_option swap_delta (changes (compare_profile_changes a b) f))"
proof -
  have "compare_profile_changes b a = swap_changeset (compare_profile_changes a b)"
    using assms by (rule swap_compare)
  then show ?thesis by (simp add: swap_changeset_def)
qed

theorem compare_swapped_witness:
  "companies_derived stored_profile \<and> companies_derived promoted_profile
   \<and> changed_fields (compare_profile_changes promoted_profile stored_profile)
       = [''follower_count'', ''recent_experience_title'']
   \<and> changes (compare_profile_changes promoted_profile stored_profile) ''recent_experience_title''
       = Some \<lparr>old = Val (PStr (str ''Staff Engineer'')), new = Val (PStr (str ''Engineer'')),
               confidence = None\<rparr>"
proof -
  have d: "companies_derived stored_profile" "companies_derived promoted_profile"
    by code_simp+
  have f: "changed_fields (compare_profile_changes stored_profile promoted_profile)
       = [''follower_count'', ''recent_experience_title'']" by code_simp
  have c: "changes (compare_profile_changes stored_profile promoted_profile)
             ''recent_experience_title''
       = Some \<lparr>old = Val (PStr (str ''Engineer'')), new = Val (PStr (str ''Staff Engineer'')),
               confidence = None\<rparr>" by code_simp
  from compare_swapped [OF d]
  have "changed_fields (compare_profile_changes promoted_profile stored_profile)
            = changed_fields (compare_profile_changes stored_profile promoted_profile)"
    and "changes (compare_profile_changes promoted_profile stored_profile)
            ''recent_experience_title''
         = map_option swap_delta (changes (compare_profile_changes stored_profile promoted_profile)
            ''recent_experience_title'')"
    by blast+
  with d f c show ?thesis by (simp add: swap_delta_def)
qed

text \<open>
  C10. When the old or the new experience list is empty, none of the four
  \<open>recent_experience_\<close> fields is recorded, neither in \<open>changed_fields\<close> nor in \<open>changes\<close>;
  the changed fields are among the simple fields, \<open>experience_count\<close>, \<open>education_count\<close>
  and \<open>previous_companies\<close>; and when exactly one of the two lists is empty,
  \<open>experience_count\<close> is recorded.
\<close>

theorem empty_experience_no_recent_diff:
  assumes "experience a = [] \<or> experience b = []"
  shows "(\<forall>f \<in> set recent_experience_fields.
            f \<notin> set (changed_fields (compare_profile_changes a b))
            \<and> changes (compare_profile_changes a b) f = None)
         \<and> set (changed_fields (compare_profile_changes a b))
             \<subseteq> set simple_fields
                 \<union> {''experience_count'', ''education_count'', ''previous_companies''}
         \<and> ((experience a = []) \<noteq> (experience b = []) \<longrightarrow>
               ''experience_count'' \<in> set (changed_fields (compare_profile_changes a b)))"
proof -
  let ?c = "compare_profile_changes a b"
  have s: "set (changed_fields ?c) \<subseteq> set simple_fields
             \<union> {''experience_count'', ''education_count'', ''previous_companies''}"
    by (rule compare_no_recent [OF assms])
  have r: "\<forall>f \<in> set recent_experience_fields. f \<notin> set simple_fields
             \<union> {''experience_count'', ''education_count'', ''previous_companies''}"
    by (simp add: recent_experience_fields_def simple_fields_def)
  have 1: "\<forall>f \<in> set recent_experience_fields. f \<notin> set (changed_fields ?c) \<and> changes ?c f = None"
  proof
    fix f assume "f \<in> set recent_experience_fields"
    with r s have n: "f \<notin> set (changed_fields ?c)" by blast
    with dom_compare [of a b] have "f \<notin> dom (changes ?c)" by simp
    with n show "f \<notin> set (changed_fields ?c) \<and> changes ?c f = None" by blast
  qed
  have 3: "(experience a = []) \<noteq> (experience b = []) \<longrightarrow>
               ''experience_count'' \<in> set (changed_fields ?c)"
  proof
    assume "(experience a = []) \<noteq> (experience b = [])"
    then have "length (experience a) \<noteq> length (experience b)" by auto
    then show "''experience_count'' \<in> set (changed_fields ?c)"
      by (rule experience_count_recorded)
  qed
  from 1 s 3 show ?thesis by blast
qed

theorem empty_experience_no_recent_diff_witness:
  "experience no_experience_profile = []
   \<and> changed_fields (compare_profile_changes no_experience_profile stored_profile)
       = [''experience_count'', ''previous_companies'']
   \<and> changes (compare_profile_changes no_experience_profile stored_profile)
        ''recent_experience_company'' = None
   \<and> changes (compare_profile_changes no_experience_profile stored_profile)
        ''recent_experience_title'' = None"
proof -
  have e: "experience no_experience_profile = []" by (simp add: no_experience_profile_def)
  have c: "changed_fields (compare_profile_changes no_experience_profile stored_profile)
       = [''experience_count'', ''previous_companies'']" by code_simp
  from empty_experience_no_recent_diff [of no_experience_profile stored_profile] e
  have "\<forall>f \<in> set recent_experience_fields.
          changes (compare_profile_changes no_experience_profile stored_profile) f = None"
    by blast
  then have "changes (compare_profile_changes no_experience_profile stored_profile)
        ''recent_experience_company'' = None
   \<and> changes (compare_profile_changes no_experience_profile stored_profile)
        ''recent_experience_title'' = None"
    by (simp add: recent_experience_fields_def)
  with e c show ?thesis by blast
qed


section \<open>Properties of the status classifier gateway\<close>

lemma prompts_py_input: "prompts (snd (py_input q s)) = prompts s @ [q]"
  by (simp add: py_input_def split: list.splits)

lemma prompts_save_example: "prompts (snd (save_example p st s)) = prompts s"
  by (simp add: save_example_def)

lemma prompts_ask_to_save:
  "\<exists>rest. prompts (snd (ask_to_save I q p st s)) = prompts s @ rest"
  by (auto simp: ask_to_save_def py_input_def save_example_def split: list.splits)

lemma verify_asks:
  "\<exists>rest. prompts (snd (verify_with_user I ai p s)) = prompts s @ confirm_prompt # rest"
proof (cases "stdin s")
  case Nil
  then show ?thesis by (simp add: verify_with_user_def py_input_def)
next
  case (Cons a ls)
  define s1 where "s1 = s\<lparr>stdin := ls, prompts := prompts s @ [confirm_prompt]\<rparr>"
  have i: "py_input confirm_prompt s = (Inr a, s1)"
    by (simp add: py_input_def Cons s1_def)
  have p1: "prompts s1 = prompts s @ [confirm_prompt]" by (simp add: s1_def)
  show ?thesis
  proof (cases "lower I (strip a) = str ''y''")
    case True
    obtain rest where
      "prompts (snd (ask_to_save I ''Save this as a training example? (y/n): '' p (status ai) s1))
         = prompts s1 @ rest"
      using prompts_ask_to_save by blast
    with True show ?thesis
      by (auto simp: verify_with_user_def i p1 Let_def split: prod.splits sum.splits)
  next
    case False
    show ?thesis
    proof (cases "py_input ''Enter correct status: '' s1")
      case (Pair res s2)
      then have p2: "prompts s2 = prompts s1 @ [''Enter correct status: '']"
        using prompts_py_input [of "''Enter correct status: ''" s1] by simp
      show ?thesis
      proof (cases res)
        case (Inl e)
        with False Pair p2 show ?thesis
          by (simp add: verify_with_user_def i p1)
      next
        case (Inr typed)
        obtain rest where
          "prompts (snd (ask_to_save I ''Save this correction as a training example? (y/n): '' p
               (PStr (lower I (strip typed))) s2)) = prompts s2 @ rest"
          using prompts_ask_to_save by blast
        with False Pair Inr p2 show ?thesis
          by (auto simp: verify_with_user_def i p1 Let_def split: prod.splits sum.splits)
      qed
    qed
  qed
qed

lemma asked_confirmationI:
  "prompts s' = prompts s @ confirm_prompt # rest \<Longrightarrow> asked_confirmation s s'"
  by (simp add: asked_confirmation_def)

lemma not_asked_self: "\<not> asked_confirmation s s"
  by (simp add: asked_confirmation_def)

lemma check_auto:
  "auto_approve \<Longrightarrow> old_status = status (get_profile_status I resp p) \<Longrightarrow>
   check_profile_status_with_verification I resp p auto_approve old_status s
     = (get_profile_status I resp p, s)"
  by (simp add: check_profile_status_with_verification_def Let_def)

lemma check_manual:
  "\<not> (auto_approve \<and> old_status = status (get_profile_status I resp p)) \<Longrightarrow>
   check_profile_status_with_verification I resp p auto_approve old_status s
     = (case verify_with_user I (get_profile_status I resp p) p s of
          (Inl e, s') \<Rightarrow> (\<lparr>status = PNone, confidence_label = str ''low''\<rparr>, s')
        | (Inr result, s') \<Rightarrow> (result, s'))"
  by (auto simp: check_profile_status_with_verification_def Let_def)

lemma check_manual_asks:
  assumes "\<not> (auto_approve \<and> old_status = status (get_profile_status I resp p))"
  shows "asked_confirmation s
           (snd (check_profile_status_with_verification I resp p auto_approve old_status s))"
proof -
  obtain rest where
    "prompts (snd (verify_with_user I (get_profile_status I resp p) p s))
       = prompts s @ confirm_prompt # rest"
    using verify_asks by blast
  then have "prompts (snd (check_profile_status_with_verification I resp p auto_approve
                 old_status s)) = prompts s @ confirm_prompt # rest"
    by (auto simp: check_manual [OF assms] split: prod.splits sum.splits)
  then show ?thesis by (rule asked_confirmationI)
qed

lemma verify_no_answer: "stdin s = [] \<Longrightarrow> fst (verify_with_user I ai p s) = Inl EOFError"
  by (simp add: verify_with_user_def py_input_def)

lemma ask_to_save_answer:
  assumes "stdin s = b # rest" and "lower I (strip b) \<noteq> str ''y'' \<or> writable s"
  shows "\<exists>s'. ask_to_save I q p st s = (Inr (), s') \<and> stdin s' = rest"
  using assms by (auto simp: ask_to_save_def py_input_def save_example_def)

lemma verify_accept:
  assumes "stdin s = a # b # rest" and "lower I (strip a) = str ''y''"
    and "lower I (strip b) \<noteq> str ''y'' \<or> writable s"
  shows "\<exists>s'. verify_with_user I ai p s = (Inr ai, s') \<and> stdin s' = rest"
proof -
  define s1 where "s1 = s\<lparr>stdin := b # rest, prompts := prompts s @ [confirm_prompt]\<rparr>"
  have i: "py_input confirm_prompt s = (Inr a, s1)"
    by (simp add: py_input_def assms(1) s1_def)
  have "stdin s1 = b # rest" and "lower I (strip b) \<noteq> str ''y'' \<or> writable s1"
    using assms(3) by (simp_all add: s1_def)
  from ask_to_save_answer [OF this] obtain s2 where
    "ask_to_save I ''Save this as a training example? (y/n): '' p (status ai) s1 = (Inr (), s2)"
    and "stdin s2 = rest" by blast
  with assms(2) show ?thesis by (simp add: verify_with_user_def i Let_def)
qed

lemma verify_override:
  assumes "stdin s = a # b # c # rest" and "lower I (strip a) \<noteq> str ''y''"
    and "lower I (strip c) \<noteq> str ''y'' \<or> writable s"
  shows "\<exists>s'. verify_with_user I ai p s
                 = (Inr \<lparr>status = PStr (lower I (strip b)),
                         confidence_label = confidence_label ai\<rparr>, s')
               \<and> stdin s' = rest"
proof -
  define s1 where "s1 = s\<lparr>stdin := b # c # rest, prompts := prompts s @ [confirm_prompt]\<rparr>"
  define s2 where
    "s2 = s1\<lparr>stdin := c # rest, prompts := prompts s1 @ [''Enter correct status: '']\<rparr>"
  have i: "py_input confirm_prompt s = (Inr a, s1)"
    by (simp add: py_input_def assms(1) s1_def)
  have j: "py_input ''Enter correct status: '' s1 = (Inr b, s2)"
    by (simp add: py_input_def s1_def s2_def)
  have "stdin s2 = c # rest" and "lower I (strip c) \<noteq> str ''y'' \<or> writable s2"
    using assms(3) by (simp_all add: s1_def s2_def)
  from ask_to_save_answer [OF this] obtain s3 where
    "ask_to_save I ''Save this correction as a training example? (y/n): '' p
       (PStr (lower I (strip b))) s2 = (Inr (), s3)"
    and "stdin s3 = rest" by blast
  with assms(2) show ?thesis by (simp add: verify_with_user_def i j Let_def)
qed

lemma check_no_answer:
  assumes "\<not> (auto_approve \<and> old_status = status (get_profile_status I resp p))"
    and "stdin s = []"
  shows "fst (check_profile_status_with_verification I resp p auto_approve old_status s)
           = \<lparr>status = PNone, confidence_label = str ''low''\<rparr>"
  using verify_no_answer [OF assms(2), of I "get_profile_status I resp p" p]
  by (auto simp: check_manual [OF assms(1)] split: prod.splits sum.splits)

lemma check_accept:
  assumes "\<not> (auto_approve \<and> old_status = status (get_profile_status I resp p))"
    and "stdin s = a # b # rest" and "lower I (strip a) = str ''y''"
    and "lower I (strip b) \<noteq> str ''y'' \<or> writable s"
  shows "fst (check_profile_status_with_verification I resp p auto_approve old_status s)
           = get_profile_status I resp p
         \<and> stdin (snd (check_profile_status_with_verification I resp p auto_approve
                          old_status s)) = rest"
proof -
  from verify_accept [OF assms(2,3,4)] obtain s' where
    "verify_with_user I (get_profile_status I resp p) p s = (Inr (get_profile_status I resp p), s')"
    and "stdin s' = rest" by blast
  then show ?thesis by (simp add: check_manual [OF assms(1)])
qed

lemma check_override:
  assumes "\<not> (auto_approve \<and> old_status = status (get_profile_status I resp p))"
    and "stdin s = a # b # c # rest" and "lower I (strip a) \<noteq> str ''y''"
    and "lower I (strip c) \<noteq> str ''y'' \<or> writable s"
  shows "fst (check_profile_status_with_verification I resp p auto_approve old_status s)
           = \<lparr>status = PStr (lower I (strip b)),
              confidence_label = confidence_label (get_profile_status I resp p)\<rparr>
         \<and> stdin (snd (check_profile_status_with_verification I resp p auto_approve
                          old_status s)) = rest"
proof -
  from verify_override [OF assms(2,3,4)] obtain s' where
    "verify_with_user I (get_profile_status I resp p) p s
       = (Inr \<lparr>status = PStr (lower I (strip b)),
               confidence_label = confidence_label (get_profile_status I resp p)\<rparr>, s')"
    and "stdin s' = rest" by blast
  then show ?thesis by (simp add: check_manual [OF assms(1)])
qed

text \<open>
  C1. \<^verbatim>\<open>check_profile_status_with_verification\<close> leaves the console untouched and returns
  the candidate of the classifier exactly when \<open>auto_approve\<close> was passed and the candidate
  status equals \<open>old_status\<close>. In every other case the confirmation question is the next
  prompt shown, in particular whenever the candidate status differs from \<open>old_status\<close>,
  whatever \<open>auto_approve\<close> is, and the operator's answers decide the result: without an
  answer the result is \<^verbatim>\<open>None\<close> with confidence \<open>low\<close>; the candidate is returned when
  the operator answers \<open>y\<close>; otherwise the result is the status that the operator types,
  stripped and in lower case, with the candidate's confidence. (The answer to the question
  about the exemplar must be readable, and the exemplar file writable when that answer is
  \<open>y\<close>.)
\<close>

theorem auto_approval_policy:
  "((snd (check_profile_status_with_verification I resp profile auto_approve old_status s) = s
      \<and> fst (check_profile_status_with_verification I resp profile auto_approve old_status s)
          = get_profile_status I resp profile)
     \<longleftrightarrow> (auto_approve \<and> old_status = status (get_profile_status I resp profile)))
   \<and> (asked_confirmation s
         (snd (check_profile_status_with_verification I resp profile auto_approve old_status s))
       \<longleftrightarrow> \<not> (auto_approve \<and> old_status = status (get_profile_status I resp profile)))
   \<and> (old_status \<noteq> status (get_profile_status I resp profile) \<longrightarrow>
         asked_confirmation s
           (snd (check_profile_status_with_verification I resp profile auto_approve old_status s)))
   \<and> (\<not> (auto_approve \<and> old_status = status (get_profile_status I resp profile)) \<longrightarrow>
         (stdin s = [] \<longrightarrow>
            fst (check_profile_status_with_verification I resp profile auto_approve old_status s)
              = \<lparr>status = PNone, confidence_label = str ''low''\<rparr>)
         \<and> (\<forall>a b rest.
               stdin s = a # b # rest \<and> lower I (strip a) = str ''y''
               \<and> (lower I (strip b) \<noteq> str ''y'' \<or> writable s) \<longrightarrow>
               fst (check_profile_status_with_verification I resp profile auto_approve
                      old_status s) = get_profile_status I resp profile
               \<and> stdin (snd (check_profile_status_with_verification I resp profile auto_approve
                                old_status s)) = rest)
         \<and> (\<forall>a b c rest.
               stdin s = a # b # c # rest \<and> lower I (strip a) \<noteq> str ''y''
               \<and> (lower I (strip c) \<noteq> str ''y'' \<or> writable s) \<longrightarrow>
               fst (check_profile_status_with_verification I resp profile auto_approve
                      old_status s)
                 = \<lparr>status = PStr (lower I (strip b)),
                    confidence_label = confidence_label (get_profile_status I resp profile)\<rparr>
               \<and> stdin (snd (check_profile_status_with_verification I resp profile auto_approve
                                old_status s)) = rest))"
proof -
  let ?auto = "auto_approve \<and> old_status = status (get_profile_status I resp profile)"
  let ?r = "check_profile_status_with_verification I resp profile auto_approve old_status s"
  have 4: "\<not> ?auto \<longrightarrow>
      (stdin s = [] \<longrightarrow> fst ?r = \<lparr>status = PNone, confidence_label = str ''low''\<rparr>)
      \<and> (\<forall>a b rest.
            stdin s = a # b # rest \<and> lower I (strip a) = str ''y''
            \<and> (lower I (strip b) \<noteq> str ''y'' \<or> writable s) \<longrightarrow>
            fst ?r = get_profile_status I resp profile \<and> stdin (snd ?r) = rest)
      \<and> (\<forall>a b c rest.
            stdin s = a # b # c # rest \<and> lower I (strip a) \<noteq> str ''y''
            \<and> (lower I (strip c) \<noteq> str ''y'' \<or> writable s) \<longrightarrow>
            fst ?r = \<lparr>status = PStr (lower I (strip b)),
                       confidence_label = confidence_label (get_profile_status I resp profile)\<rparr>
            \<and> stdin (snd ?r) = rest)"
  proof
    assume m: "\<not> ?auto"
    have x: "stdin s = [] \<longrightarrow> fst ?r = \<lparr>status = PNone, confidence_label = str ''low''\<rparr>"
      using check_no_answer [OF m] by blast
    have y: "\<forall>a b rest.
            stdin s = a # b # rest \<and> lower I (strip a) = str ''y''
            \<and> (lower I (strip b) \<noteq> str ''y'' \<or> writable s) \<longrightarrow>
            fst ?r = get_profile_status I resp profile \<and> stdin (snd ?r) = rest"
      using check_accept [OF m] by blast
    have z: "\<forall>a b c rest.
            stdin s = a # b # c # rest \<and> lower I (strip a) \<noteq> str ''y''
            \<and> (lower I (strip c) \<noteq> str ''y'' \<or> writable s) \<longrightarrow>
            fst ?r = \<lparr>status = PStr (lower I (strip b)),
                       confidence_label = confidence_label (get_profile_status I resp profile)\<rparr>
            \<and> stdin (snd ?r) = rest"
      using check_override [OF m] by blast
    from x y z show "(stdin s = [] \<longrightarrow>
          fst ?r = \<lparr>status = PNone, confidence_label = str ''low''\<rparr>)
      \<and> (\<forall>a b rest.
            stdin s = a # b # rest \<and> lower I (strip a) = str ''y''
            \<and> (lower I (strip b) \<noteq> str ''y'' \<or> writable s) \<longrightarrow>
            fst ?r = get_profile_status I resp profile \<and> stdin (snd ?r) = rest)
      \<and> (\<forall>a b c rest.
            stdin s = a # b # c # rest \<and> lower I (strip a) \<noteq> str ''y''
            \<and> (lower I (strip c) \<noteq> str ''y'' \<or> writable s) \<longrightarrow>
            fst ?r = \<lparr>status = PStr (lower I (strip b)),
                       confidence_label = confidence_label (get_profile_status I resp profile)\<rparr>
            \<and> stdin (snd ?r) = rest)" by blast
  qed
  have 123: "((snd ?r = s \<and> fst ?r = get_profile_status I resp profile) \<longleftrightarrow> ?auto)
      \<and> (asked_confirmation s (snd ?r) \<longleftrightarrow> \<not> ?auto)
      \<and> (old_status \<noteq> status (get_profile_status I resp profile) \<longrightarrow>
           asked_confirmation s (snd ?r))"
  proof (cases ?auto)
    case True
    then show ?thesis by (simp add: check_auto not_asked_self)
  next
    case False
    from check_manual_asks [OF False] have a: "asked_confirmation s (snd ?r)" .
    then have "snd ?r \<noteq> s" using not_asked_self [of s] by auto
    with a False show ?thesis by blast
  qed
  from 123 4 show ?thesis by blast
qed

theorem auto_approval_policy_witness:
  "check_profile_status_with_verification sample_interp (Inr (str ''stealth|HIGH''))
      stored_profile True (PStr (str ''stealth'')) (console [str ''y'', str ''n''])
     = (\<lparr>status = PStr (str ''stealth''), confidence_label = str ''high''\<rparr>,
        console [str ''y'', str ''n''])
   \<and> asked_confirmation (console [])
        (snd (check_profile_status_with_verification sample_interp
                (Inr (str ''recently_quit|HIGH'')) stored_profile True (PStr (str ''stealth''))
                (console [])))
   \<and> fst (check_profile_status_with_verification sample_interp
            (Inr (str ''recently_quit|HIGH'')) stored_profile True (PStr (str ''stealth''))
            (console []))
       = \<lparr>status = PNone, confidence_label = str ''low''\<rparr>
   \<and> fst (check_profile_status_with_verification sample_interp
            (Inr (str ''recently_quit|HIGH'')) stored_profile True (PStr (str ''stealth''))
            (console [str ''Y '', str ''n'']))
       = \<lparr>status = PStr (str ''recently_quit''), confidence_label = str ''high''\<rparr>
   \<and> fst (check_profile_status_with_verification sample_interp
            (Inr (str ''recently_quit|HIGH'')) stored_profile True (PStr (str ''stealth''))
            (console [str ''n'', str '' Stealth '', str ''n'']))
       = \<lparr>status = PStr (str ''stealth''), confidence_label = str ''high''\<rparr>"
proof -
  have g1: "get_profile_status sample_interp (Inr (str ''stealth|HIGH'')) stored_profile
              = \<lparr>status = PStr (str ''stealth''), confidence_label = str ''high''\<rparr>"
    by code_simp
  have g2: "get_profile_status sample_interp (Inr (str ''recently_quit|HIGH'')) stored_profile
              = \<lparr>status = PStr (str ''recently_quit''), confidence_label = str ''high''\<rparr>"
    by code_simp
  have d: "PStr (str ''stealth'') \<noteq> PStr (str ''recently_quit'')" by code_simp
  have l: "lower sample_interp (strip (str ''Y '')) = str ''y''"
    "lower sample_interp (strip (str ''n'')) \<noteq> str ''y''"
    "lower sample_interp (strip (str '' Stealth '')) = str ''stealth''"
    by code_simp+
  from auto_approval_policy [where I = sample_interp and resp = "Inr (str ''stealth|HIGH'')"
      and profile = stored_profile and auto_approve = True
      and old_status = "PStr (str ''stealth'')" and s = "console [str ''y'', str ''n'']"] g1
  have 1: "check_profile_status_with_verification sample_interp (Inr (str ''stealth|HIGH''))
      stored_profile True (PStr (str ''stealth'')) (console [str ''y'', str ''n''])
     = (\<lparr>status = PStr (str ''stealth''), confidence_label = str ''high''\<rparr>,
        console [str ''y'', str ''n''])"
    by (simp add: prod_eq_iff)
  from auto_approval_policy [where I = sample_interp
      and resp = "Inr (str ''recently_quit|HIGH'')"
      and profile = stored_profile and auto_approve = True
      and old_status = "PStr (str ''stealth'')" and s = "console []"] g2 d
  have 2: "asked_confirmation (console [])
        (snd (check_profile_status_with_verification sample_interp
                (Inr (str ''recently_quit|HIGH'')) stored_profile True (PStr (str ''stealth''))
                (console [])))
   \<and> fst (check_profile_status_with_verification sample_interp
            (Inr (str ''recently_quit|HIGH'')) stored_profile True (PStr (str ''stealth''))
            (console []))
       = \<lparr>status = PNone, confidence_label = str ''low''\<rparr>"
    by (simp add: console_def)
  from auto_approval_policy [where I = sample_interp
      and resp = "Inr (str ''recently_quit|HIGH'')"
      and profile = stored_profile and auto_approve = True
      and old_status = "PStr (str ''stealth'')" and s = "console [str ''Y '', str ''n'']"]
    g2 d l
  have 3: "fst (check_profile_status_with_verification sample_interp
            (Inr (str ''recently_quit|HIGH'')) stored_profile True (PStr (str ''stealth''))
            (console [str ''Y '', str ''n'']))
       = \<lparr>status = PStr (str ''recently_quit''), confidence_label = str ''high''\<rparr>"
    by (simp add: console_def)
  from auto_approval_policy [where I = sample_interp
      and resp = "Inr (str ''recently_quit|HIGH'')"
      and profile = stored_profile and auto_approve = True
      and old_status = "PStr (str ''stealth'')"
      and s = "console [str ''n'', str '' Stealth '', str ''n'']"] g2 d l
  have 4: "fst (check_profile_status_with_verification sample_interp
            (Inr (str ''recently_quit|HIGH'')) stored_profile True (PStr (str ''stealth''))
            (console [str ''n'', str '' Stealth '', str ''n'']))
       = \<lparr>status = PStr (str ''stealth''), confidence_label = str ''high''\<rparr>"
    by (simp add: console_def)
  from 1 2 3 4 show ?thesis by blast
qed

section \<open>Properties of the refresh path\<close>

lemma auto_approve_flag_iff:
  "changed_fields c \<noteq> [] \<Longrightarrow>
   auto_approve_flag c \<longleftrightarrow> (\<forall>f \<in> set (changed_fields c). f \<in> set non_critical_fields)"
proof -
  assume ne: "changed_fields c \<noteq> []"
  then have "set (changed_fields c) \<noteq> {}" by simp
  then have "card (set (changed_fields c)) > 0" by (simp add: card_gt_0_iff)
  moreover have "card (set (changed_fields c) - set non_critical_fields) = 0
     \<longleftrightarrow> set (changed_fields c) \<subseteq> set non_critical_fields"
    by simp
  ultimately show ?thesis by (auto simp: auto_approve_flag_def Let_def)
qed

lemma prepare_io:
  "snd (prepare_profile_updates I resp old_p new_p det s)
     = snd (check_profile_status_with_verification I resp new_p (auto_approve_flag det)
              (dget (scalars old_p) ''profile_status'' PNone) s)"
  by (simp add: prepare_profile_updates_def Let_def split: prod.splits)

text \<open>
  C2. On the refresh path, when the detected change-set has \<open>has_changes\<close>, the flag
  \<open>auto_approve\<close> is true exactly when every changed field is one of
  \<open>follower_count\<close>, \<open>connection_count\<close>, \<open>recent_experience_duration\<close>, and the status
  classification of the refresh runs with that flag.
\<close>

theorem auto_approve_only_non_critical:
  assumes "has_changes (compare_profile_changes current_profile fresh_profile)"
  shows "(auto_approve_flag (compare_profile_changes current_profile fresh_profile)
           \<longleftrightarrow> (\<forall>f \<in> set (changed_fields (compare_profile_changes current_profile fresh_profile)).
                  f \<in> set non_critical_fields))
         \<and> snd (refresh_single_profile I resp current_profile fresh_profile s)
             = snd (check_profile_status_with_verification I resp fresh_profile
                     (\<forall>f \<in> set (changed_fields
                               (compare_profile_changes current_profile fresh_profile)).
                         f \<in> set non_critical_fields)
                     (dget (scalars current_profile) ''profile_status'' PNone) s)"
proof -
  let ?d = "compare_profile_changes current_profile fresh_profile"
  from assms cs_ok_compare [of current_profile fresh_profile]
  have ne: "changed_fields ?d \<noteq> []" by (simp add: cs_ok_def)
  note f = auto_approve_flag_iff [OF ne]
  have "snd (refresh_single_profile I resp current_profile fresh_profile s)
          = snd (prepare_profile_updates I resp current_profile fresh_profile ?d s)"
    using assms by (simp add: refresh_single_profile_def Let_def split: prod.splits)
  with f show ?thesis by (simp add: prepare_io)
qed

theorem auto_approve_only_non_critical_witness:
  "has_changes (compare_profile_changes stored_profile later_scrape)
   \<and> changed_fields (compare_profile_changes stored_profile later_scrape)
       = [''recent_experience_duration'']
   \<and> auto_approve_flag (compare_profile_changes stored_profile later_scrape)
   \<and> has_changes (compare_profile_changes stored_profile promoted_profile)
   \<and> \<not> auto_approve_flag (compare_profile_changes stored_profile promoted_profile)"
proof -
  have c1: "changed_fields (compare_profile_changes stored_profile later_scrape)
       = [''recent_experience_duration'']" by code_simp
  have h1: "has_changes (compare_profile_changes stored_profile later_scrape)" by code_simp
  have c2: "changed_fields (compare_profile_changes stored_profile promoted_profile)
       = [''follower_count'', ''recent_experience_title'']" by code_simp
  have h2: "has_changes (compare_profile_changes stored_profile promoted_profile)" by code_simp
  from auto_approve_only_non_critical [OF h1] c1
  have a1: "auto_approve_flag (compare_profile_changes stored_profile later_scrape)"
    by (simp add: non_critical_fields_def)
  from auto_approve_only_non_critical [OF h2] c2
  have a2: "\<not> auto_approve_flag (compare_profile_changes stored_profile promoted_profile)"
    by (simp add: non_critical_fields_def)
  from h1 c1 a1 h2 a2 show ?thesis by blast
qed

section \<open>Failure of the classification capability\<close>

lemma get_profile_status_unreachable: "get_profile_status I (Inl e) p = ai_failure"
  by (simp add: get_profile_status_def split: sum.splits)

lemma get_profile_status_unparseable:
  "length (split_on (of_char CHR ''|'') (lower I (strip content))) \<noteq> 2 \<Longrightarrow>
   get_profile_status I (Inr content) p = ai_failure"
  by (auto simp: get_profile_status_def split: sum.splits list.splits)

lemma candidate_status_text: "\<exists>t. status (get_profile_status I resp p) = PStr t"
  by (auto simp: get_profile_status_def ai_failure_def split: sum.splits list.splits)

lemma verify_status_text:
  "status ai = PStr t \<Longrightarrow> verify_with_user I ai p s = (Inr result, s') \<Longrightarrow>
   \<exists>u. status result = PStr u"
  by (auto simp: verify_with_user_def Let_def split: prod.splits sum.splits if_splits)

lemma check_status_none:
  assumes "status (fst (check_profile_status_with_verification I resp p auto_approve old_status s))
             = PNone"
  shows "\<not> (auto_approve \<and> old_status = status (get_profile_status I resp p))
         \<and> (\<exists>e. fst (verify_with_user I (get_profile_status I resp p) p s) = Inl e)
         \<and> fst (check_profile_status_with_verification I resp p auto_approve old_status s)
             = \<lparr>status = PNone, confidence_label = str ''low''\<rparr>"
proof -
  obtain t where t: "status (get_profile_status I resp p) = PStr t"
    using candidate_status_text by blast
  have m: "\<not> (auto_approve \<and> old_status = status (get_profile_status I resp p))"
  proof
    assume "auto_approve \<and> old_status = status (get_profile_status I resp p)"
    with assms t show False by (simp add: check_auto)
  qed
  obtain res s' where v: "verify_with_user I (get_profile_status I resp p) p s = (res, s')"
    by (cases "verify_with_user I (get_profile_status I resp p) p s")
  show ?thesis
  proof (cases res)
    case (Inl e)
    with m v show ?thesis by (simp add: check_manual)
  next
    case (Inr result)
    with verify_status_text [OF t] v obtain u where "status result = PStr u" by blast
    with assms m v Inr show ?thesis by (simp add: check_manual)
  qed
qed

text \<open>
  The refresh caller has no check for a \<^verbatim>\<open>None\<close> status: whatever status the gateway
  returns is written, with its confidence, when it differs from the stored status.
\<close>

lemma fresh_fields_no_status:
  "upd_scalars (fresh_fields p) ''profile_status'' = None"
  "upd_scalars (fresh_fields p) ''status_confidence_label'' = None"
  by (simp_all add: fresh_fields_def simple_fields_def)

lemma prepare_writes:
  "upd_scalars (fst (fst (prepare_profile_updates I resp old_p new_p det s))) ''profile_status''
     = (let cl = fst (check_profile_status_with_verification I resp new_p (auto_approve_flag det)
                        (dget (scalars old_p) ''profile_status'' PNone) s)
        in if status cl \<noteq> dget (scalars old_p) ''profile_status'' PNone
           then Some (status cl) else None)"
  "upd_scalars (fst (fst (prepare_profile_updates I resp old_p new_p det s)))
       ''status_confidence_label''
     = (let cl = fst (check_profile_status_with_verification I resp new_p (auto_approve_flag det)
                        (dget (scalars old_p) ''profile_status'' PNone) s)
        in if status cl \<noteq> dget (scalars old_p) ''profile_status'' PNone
           then Some (PStr (confidence_label cl)) else None)"
  by (simp_all add: prepare_profile_updates_def Let_def fresh_fields_no_status split: prod.splits)

lemma prepare_writes_none:
  "upd_scalars (fst (fst (prepare_profile_updates sample_interp (Inl APIError) stored_profile
          later_scrape (compare_profile_changes stored_profile later_scrape) (console []))))
        ''profile_status'' = Some PNone"
  by code_simp

text \<open>
  C3 as stated fails: when the capability is unreachable the candidate has the empty status,
  not \<^verbatim>\<open>None\<close>, and an operator who accepts it gets the empty status back.
\<close>

theorem failed_classification_not_null:
  "get_profile_status sample_interp (Inl APIError) later_scrape
     = \<lparr>status = PStr [], confidence_label = str ''low''\<rparr>
   \<and> fst (check_profile_status_with_verification sample_interp (Inl APIError) later_scrape False
          (PStr (str ''currently_employed'')) (console [str ''y'', str ''n'']))
     = \<lparr>status = PStr [], confidence_label = str ''low''\<rparr>"
  by code_simp

text \<open>
  C3, amended. When the capability is unreachable or its reply does not split into two parts
  at \<open>|\<close>, the candidate is the empty status with confidence \<open>low\<close>. This candidate is
  returned without confirmation when \<open>auto_approve\<close> is set and \<open>old_status\<close> is the empty
  status; otherwise the operator is asked, and the result is the empty status with
  confidence \<open>low\<close> when the operator accepts, and the status that the operator types,
  stripped and in lower case, with confidence \<open>low\<close> when the operator overrides (the answer
  to the question about the exemplar must be readable, and the exemplar file writable when
  that answer is \<open>y\<close>). For every candidate, a status \<^verbatim>\<open>None\<close> is returned only when the
  candidate was not auto-approved and the confirmation step raised, and then the result is
  \<^verbatim>\<open>None\<close> with confidence \<open>low\<close>.
\<close>

theorem classification_failure_policy:
  "get_profile_status I (Inl e) profile = \<lparr>status = PStr [], confidence_label = str ''low''\<rparr>
   \<and> (length (split_on (of_char CHR ''|'') (lower I (strip content))) \<noteq> 2 \<longrightarrow>
        get_profile_status I (Inr content) profile
          = \<lparr>status = PStr [], confidence_label = str ''low''\<rparr>)
   \<and> (get_profile_status I resp profile = \<lparr>status = PStr [], confidence_label = str ''low''\<rparr>
        \<longrightarrow>
        (auto_approve \<and> old_status = PStr [] \<longrightarrow>
           check_profile_status_with_verification I resp profile auto_approve old_status s
             = (\<lparr>status = PStr [], confidence_label = str ''low''\<rparr>, s))
        \<and> (\<not> (auto_approve \<and> old_status = PStr []) \<longrightarrow>
             asked_confirmation s
               (snd (check_profile_status_with_verification I resp profile auto_approve
                       old_status s))
             \<and> (\<forall>a b rest.
                   stdin s = a # b # rest \<and> lower I (strip a) = str ''y''
                   \<and> (lower I (strip b) \<noteq> str ''y'' \<or> writable s) \<longrightarrow>
                   fst (check_profile_status_with_verification I resp profile auto_approve
                          old_status s)
                     = \<lparr>status = PStr [], confidence_label = str ''low''\<rparr>)
             \<and> (\<forall>a b c rest.
                   stdin s = a # b # c # rest \<and> lower I (strip a) \<noteq> str ''y''
                   \<and> (lower I (strip c) \<noteq> str ''y'' \<or> writable s) \<longrightarrow>
                   fst (check_profile_status_with_verification I resp profile auto_approve
                          old_status s)
                     = \<lparr>status = PStr (lower I (strip b)), confidence_label = str ''low''\<rparr>)))
   \<and> (status (fst (check_profile_status_with_verification I resp profile auto_approve
                      old_status s)) = PNone \<longrightarrow>
        \<not> (auto_approve \<and> old_status = status (get_profile_status I resp profile))
        \<and> (\<exists>err. fst (verify_with_user I (get_profile_status I resp profile) profile s) = Inl err)
        \<and> fst (check_profile_status_with_verification I resp profile auto_approve old_status s)
            = \<lparr>status = PNone, confidence_label = str ''low''\<rparr>)"
proof -
  let ?low = "\<lparr>status = PStr [], confidence_label = str ''low''\<rparr>"
  let ?r = "check_profile_status_with_verification I resp profile auto_approve old_status s"
  have 1: "get_profile_status I (Inl e) profile = ?low"
    by (simp add: get_profile_status_unreachable ai_failure_def)
  have 2: "length (split_on (of_char CHR ''|'') (lower I (strip content))) \<noteq> 2 \<longrightarrow>
        get_profile_status I (Inr content) profile = ?low"
    by (simp add: get_profile_status_unparseable ai_failure_def)
  have 3: "get_profile_status I resp profile = ?low \<longrightarrow>
        (auto_approve \<and> old_status = PStr [] \<longrightarrow> ?r = (?low, s))
        \<and> (\<not> (auto_approve \<and> old_status = PStr []) \<longrightarrow>
             asked_confirmation s (snd ?r)
             \<and> (\<forall>a b rest.
                   stdin s = a # b # rest \<and> lower I (strip a) = str ''y''
                   \<and> (lower I (strip b) \<noteq> str ''y'' \<or> writable s) \<longrightarrow>
                   fst ?r = ?low)
             \<and> (\<forall>a b c rest.
                   stdin s = a # b # c # rest \<and> lower I (strip a) \<noteq> str ''y''
                   \<and> (lower I (strip c) \<noteq> str ''y'' \<or> writable s) \<longrightarrow>
                   fst ?r = \<lparr>status = PStr (lower I (strip b)),
                              confidence_label = str ''low''\<rparr>))"
  proof
    assume g: "get_profile_status I resp profile = ?low"
    then have st: "status (get_profile_status I resp profile) = PStr []"
      and cl: "confidence_label (get_profile_status I resp profile) = str ''low''"
      by simp_all
    have x: "auto_approve \<and> old_status = PStr [] \<longrightarrow> ?r = (?low, s)"
      using check_auto [of auto_approve old_status I resp profile s] by (simp add: g)
    have y: "\<not> (auto_approve \<and> old_status = PStr []) \<longrightarrow>
             asked_confirmation s (snd ?r)
             \<and> (\<forall>a b rest.
                   stdin s = a # b # rest \<and> lower I (strip a) = str ''y''
                   \<and> (lower I (strip b) \<noteq> str ''y'' \<or> writable s) \<longrightarrow>
                   fst ?r = ?low)
             \<and> (\<forall>a b c rest.
                   stdin s = a # b # c # rest \<and> lower I (strip a) \<noteq> str ''y''
                   \<and> (lower I (strip c) \<noteq> str ''y'' \<or> writable s) \<longrightarrow>
                   fst ?r = \<lparr>status = PStr (lower I (strip b)),
                              confidence_label = str ''low''\<rparr>)"
    proof
      assume "\<not> (auto_approve \<and> old_status = PStr [])"
      with st have m: "\<not> (auto_approve \<and> old_status = status (get_profile_status I resp profile))"
        by simp
      have y1: "asked_confirmation s (snd ?r)" by (rule check_manual_asks [OF m])
      have y2: "\<forall>a b rest.
                   stdin s = a # b # rest \<and> lower I (strip a) = str ''y''
                   \<and> (lower I (strip b) \<noteq> str ''y'' \<or> writable s) \<longrightarrow>
                   fst ?r = ?low"
        using check_accept [OF m] g by metis
      have y3: "\<forall>a b c rest.
                   stdin s = a # b # c # rest \<and> lower I (strip a) \<noteq> str ''y''
                   \<and> (lower I (strip c) \<noteq> str ''y'' \<or> writable s) \<longrightarrow>
                   fst ?r = \<lparr>status = PStr (lower I (strip b)),
                              confidence_label = str ''low''\<rparr>"
        using check_override [OF m] cl by metis
      from y1 y2 y3 show "asked_confirmation s (snd ?r)
             \<and> (\<forall>a b rest.
                   stdin s = a # b # rest \<and> lower I (strip a) = str ''y''
                   \<and> (lower I (strip b) \<noteq> str ''y'' \<or> writable s) \<longrightarrow>
                   fst ?r = ?low)
             \<and> (\<forall>a b c rest.
                   stdin s = a # b # c # rest \<and> lower I (strip a) \<noteq> str ''y''
                   \<and> (lower I (strip c) \<noteq> str ''y'' \<or> writable s) \<longrightarrow>
                   fst ?r = \<lparr>status = PStr (lower I (strip b)),
                              confidence_label = str ''low''\<rparr>)" by blast
    qed
    from x y show "(auto_approve \<and> old_status = PStr [] \<longrightarrow> ?r = (?low, s))
        \<and> (\<not> (auto_approve \<and> old_status = PStr []) \<longrightarrow>
             asked_confirmation s (snd ?r)
             \<and> (\<forall>a b rest.
                   stdin s = a # b # rest \<and> lower I (strip a) = str ''y''
                   \<and> (lower I (strip b) \<noteq> str ''y'' \<or> writable s) \<longrightarrow>
                   fst ?r = ?low)
             \<and> (\<forall>a b c rest.
                   stdin s = a # b # c # rest \<and> lower I (strip a) \<noteq> str ''y''
                   \<and> (lower I (strip c) \<noteq> str ''y'' \<or> writable s) \<longrightarrow>
                   fst ?r = \<lparr>status = PStr (lower I (strip b)),
                              confidence_label = str ''low''\<rparr>))" by blast
  qed
  have 4: "status (fst ?r) = PNone \<longrightarrow>
        \<not> (auto_approve \<and> old_status = status (get_profile_status I resp profile))
        \<and> (\<exists>err. fst (verify_with_user I (get_profile_status I resp profile) profile s) = Inl err)
        \<and> fst ?r = \<lparr>status = PNone, confidence_label = str ''low''\<rparr>"
    using check_status_none [of I resp profile auto_approve old_status s] by blast
  from 1 2 3 4 show ?thesis by blast
qed

theorem classification_failure_policy_witness:
  "get_profile_status sample_interp (Inr (str ''no idea'')) later_scrape
     = \<lparr>status = PStr [], confidence_label = str ''low''\<rparr>
   \<and> fst (check_profile_status_with_verification sample_interp (Inr (str ''no idea''))
            later_scrape True (PStr (str ''currently_employed''))
            (console [str ''n'', str ''Stealth '', str ''n'']))
       = \<lparr>status = PStr (str ''stealth''), confidence_label = str ''low''\<rparr>
   \<and> fst (check_profile_status_with_verification sample_interp (Inr (str ''no idea''))
            later_scrape True (PStr (str ''currently_employed''))
            (console [str ''y'', str ''n'']))
       = \<lparr>status = PStr [], confidence_label = str ''low''\<rparr>
   \<and> check_profile_status_with_verification sample_interp (Inr (str ''no idea''))
            later_scrape True (PStr []) (console [])
       = (\<lparr>status = PStr [], confidence_label = str ''low''\<rparr>, console [])"
proof -
  have n: "length (split_on (of_char CHR ''|'') (lower sample_interp (strip (str ''no idea''))))
             \<noteq> 2" by code_simp
  have l: "lower sample_interp (strip (str ''y'')) = str ''y''"
    "lower sample_interp (strip (str ''n'')) \<noteq> str ''y''"
    "lower sample_interp (strip (str ''Stealth '')) = str ''stealth''"
    by code_simp+
  have d: "PStr (str ''currently_employed'') \<noteq> PStr []" by code_simp
  note th = classification_failure_policy [where I = sample_interp and profile = later_scrape
      and content = "str ''no idea''" and resp = "Inr (str ''no idea'')" and auto_approve = True]
  from th [where old_status = "PStr []" and s = "console []"] n
  have g: "get_profile_status sample_interp (Inr (str ''no idea'')) later_scrape
     = \<lparr>status = PStr [], confidence_label = str ''low''\<rparr>" by blast
  from th [where old_status = "PStr (str ''currently_employed'')"
      and s = "console [str ''n'', str ''Stealth '', str ''n'']"] g d l
  have 1: "fst (check_profile_status_with_verification sample_interp (Inr (str ''no idea''))
            later_scrape True (PStr (str ''currently_employed''))
            (console [str ''n'', str ''Stealth '', str ''n'']))
       = \<lparr>status = PStr (str ''stealth''), confidence_label = str ''low''\<rparr>"
    by (simp add: console_def)
  from th [where old_status = "PStr (str ''currently_employed'')"
      and s = "console [str ''y'', str ''n'']"] g d l
  have 2: "fst (check_profile_status_with_verification sample_interp (Inr (str ''no idea''))
            later_scrape True (PStr (str ''currently_employed''))
            (console [str ''y'', str ''n'']))
       = \<lparr>status = PStr [], confidence_label = str ''low''\<rparr>"
    by (simp add: console_def)
  from th [where old_status = "PStr []" and s = "console []"] g
  have 3: "check_profile_status_with_verification sample_interp (Inr (str ''no idea''))
            later_scrape True (PStr []) (console [])
       = (\<lparr>status = PStr [], confidence_label = str ''low''\<rparr>, console [])"
    by simp
  from g 1 2 3 show ?thesis by blast
qed

section \<open>Properties of the label engine\<close>

lemma contains_sublist: "contains k s \<longleftrightarrow> sublist k s"
  by (induction s) (simp_all add: sublist_Cons_right)

lemma lower_founder_keywords: "k \<in> set founder_keywords \<Longrightarrow> lower I k = k"
  by (auto simp: founder_keywords_def lower_def ascii_lower_def ascii_lower_char_def str_def)

lemma founder_titled_iff:
  "dget e ''title'' (PStr []) = PStr t \<Longrightarrow>
   founder_titled I e \<longleftrightarrow> list_ex (\<lambda>keyword. contains keyword (lower I t)) founder_keywords"
  by (auto simp: founder_titled_def title_text_def list_ex_iff contains_sublist
        lower_founder_keywords)

lemma founder_loop_filter:
  "\<forall>e \<in> set es. \<exists>t. dget e ''title'' (PStr []) = PStr t \<Longrightarrow>
   founder_loop I es acc = Inr (acc @ filter (founder_titled I) es)"
proof (induction es arbitrary: acc)
  case Nil
  show ?case by simp
next
  case (Cons e es)
  then obtain t where t: "dget e ''title'' (PStr []) = PStr t" by auto
  from Cons.prems have r: "\<forall>e \<in> set es. \<exists>t. dget e ''title'' (PStr []) = PStr t" by simp
  show ?case
    using founder_titled_iff [OF t, of I] Cons.IH [OF r]
    by (simp add: t val_lower_def)
qed

lemma founder_loop_raises:
  "\<exists>e \<in> set es. \<not> (\<exists>t. dget e ''title'' (PStr []) = PStr t) \<Longrightarrow>
   \<exists>err. founder_loop I es acc = Inl err"
proof (induction es arbitrary: acc)
  case Nil
  then show ?case by simp
next
  case (Cons e es)
  show ?case
  proof (cases "\<exists>t. dget e ''title'' (PStr []) = PStr t")
    case True
    then obtain t where t: "dget e ''title'' (PStr []) = PStr t" by blast
    with Cons.prems have "\<exists>e \<in> set es. \<not> (\<exists>t. dget e ''title'' (PStr []) = PStr t)"
      by auto
    from Cons.IH [OF this] show ?thesis by (simp add: t val_lower_def)
  next
    case False
    then show ?thesis by (cases "dget e ''title'' (PStr [])") (simp_all add: val_lower_def)
  qed
qed

lemma founder_titles:
  "sublist (str ''founder'') (lower sample_interp (str ''Founder''))"
  "sublist (str ''founder'') (lower sample_interp (str ''Co-Founder''))"
  "k \<in> set founder_keywords \<Longrightarrow> \<not> sublist k (lower sample_interp [])"
proof -
  have "contains (str ''founder'') (lower sample_interp (str ''Founder''))" by code_simp
  then show "sublist (str ''founder'') (lower sample_interp (str ''Founder''))"
    by (simp add: contains_sublist)
  have "contains (str ''founder'') (lower sample_interp (str ''Co-Founder''))" by code_simp
  then show "sublist (str ''founder'') (lower sample_interp (str ''Co-Founder''))"
    by (simp add: contains_sublist)
  show "k \<in> set founder_keywords \<Longrightarrow> \<not> sublist k (lower sample_interp [])"
    by (auto simp: founder_keywords_def lower_def ascii_lower_def str_def)
qed

text \<open>
  The repeat-founder rule on profiles whose titles are text (or absent):
  \<^verbatim>\<open>check_repeat_founder\<close> is true exactly when more than one experience entry has a title
  that contains, without regard to case, one of the keywords founder, co-founder, co founder,
  chief executive officer, ceo. One entry titled Founder gives false; two entries titled
  Founder and Co-Founder give true.
\<close>

lemma check_repeat_founder_count:
  assumes "titles_are_text p"
  shows "check_repeat_founder I p \<longleftrightarrow> 1 < length (filter (founder_titled I) (experience p))"
proof (cases "experience p = []")
  case True
  then show ?thesis by (simp add: check_repeat_founder_def)
next
  case False
  from assms have "founder_loop I (experience p) []
      = Inr ([] @ filter (founder_titled I) (experience p))"
    unfolding titles_are_text_def by (rule founder_loop_filter)
  with False show ?thesis by (simp add: check_repeat_founder_def)
qed

lemma check_repeat_founder_samples:
  "\<not> check_repeat_founder sample_interp one_founder"
  "check_repeat_founder sample_interp two_founders"
  by code_simp+

text \<open>
  C7 does not hold of the code for every profile. When the title of an experience entry is
  \<^verbatim>\<open>None\<close> (a JSON null), \<^verbatim>\<open>.lower()\<close> raises, the \<^verbatim>\<open>except\<close> branch of
  \<^verbatim>\<open>check_repeat_founder\<close> returns false, and so the result is false however many
  entries have founder titles.
\<close>

theorem null_title_not_repeat_founder:
  assumes "e \<in> set (experience p)" and "dget e ''title'' (PStr []) = PNone"
  shows "\<not> check_repeat_founder I p"
proof -
  from assms(2) have "\<not> (\<exists>t. dget e ''title'' (PStr []) = PStr t)" by simp
  with assms(1)
  have "\<exists>e \<in> set (experience p). \<not> (\<exists>t. dget e ''title'' (PStr []) = PStr t)"
    by blast
  from founder_loop_raises [OF this, of I "[]"] show ?thesis
    by (auto simp: check_repeat_founder_def)
qed

theorem null_title_not_repeat_founder_witness:
  "length (filter (founder_titled sample_interp) (experience null_title_founder)) = 2
   \<and> \<not> check_repeat_founder sample_interp null_title_founder"
proof -
  let ?e = "[''title'' \<mapsto> PNone, ''company'' \<mapsto> PStr (str ''Cargo'')]"
  have k: "str ''founder'' \<in> set founder_keywords" by (simp add: founder_keywords_def)
  have 1: "length (filter (founder_titled sample_interp) (experience null_title_founder)) = 2"
    using founder_titles k
    by (auto simp: founder_titled_def title_text_def null_title_founder_def dget_def
          lower_founder_keywords)
  have "?e \<in> set (experience null_title_founder)" by (simp add: null_title_founder_def)
  moreover have "dget ?e ''title'' (PStr []) = PNone" by (simp add: dget_def)
  ultimately have "\<not> check_repeat_founder sample_interp null_title_founder"
    by (rule null_title_not_repeat_founder)
  with 1 show ?thesis by blast
qed

lemma relevant_experiences_filter:
  "\<forall>e \<in> set es. \<exists>c. dget e ''company'' (PStr []) = PStr c \<Longrightarrow>
   relevant_experiences I es sc = Inr (filter (company_matches I sc) es)"
proof (induction es)
  case Nil
  show ?case by simp
next
  case (Cons e es)
  then obtain c where c: "dget e ''company'' (PStr []) = PStr c" by auto
  from Cons.prems have "\<forall>e \<in> set es. \<exists>c. dget e ''company'' (PStr []) = PStr c" by simp
  from Cons.IH [OF this] show ?case
    by (simp add: c val_lower_def company_matches_def)
qed

lemma ask_role_prompts: "prompts (snd (ask_role s)) = prompts s @ [role_prompt]"
  by (simp add: ask_role_def py_input_def split: list.splits)

lemma ask_role_answer: "stdin s = l # ls \<Longrightarrow> fst (ask_role s) = l"
  by (simp add: ask_role_def py_input_def)

lemma extract_one:
  assumes "experience p \<noteq> []" "companies_are_text p"
    "filter (company_matches I sc) (experience p) = [m]"
  shows "extract_company_role I p sc s =
           (py_str (dget m ''title'' (PStr (str ''Unknown Role''))) @ str '' at '' @ sc
              @ str '' for '' @ py_str (dget m ''duration'' (PStr (str ''Unknown Duration''))), s)"
proof -
  from assms(2) have "relevant_experiences I (experience p) sc
      = Inr (filter (company_matches I sc) (experience p))"
    unfolding companies_are_text_def by (rule relevant_experiences_filter)
  with assms(1,3) show ?thesis by (simp add: extract_company_role_def Let_def)
qed

lemma extract_ask:
  assumes "experience p \<noteq> []" "companies_are_text p"
    "2 \<le> length (filter (company_matches I sc) (experience p))
     \<or> (filter (company_matches I sc) (experience p) = [] \<and> scalars p ''full_name'' \<noteq> None)"
  shows "extract_company_role I p sc s = ask_role s"
proof -
  from assms(2) have r: "relevant_experiences I (experience p) sc
      = Inr (filter (company_matches I sc) (experience p))"
    unfolding companies_are_text_def by (rule relevant_experiences_filter)
  from assms(3) show ?thesis
  proof
    assume "2 \<le> length (filter (company_matches I sc) (experience p))"
    then obtain a b rest where "filter (company_matches I sc) (experience p) = a # b # rest"
      by (cases "filter (company_matches I sc) (experience p)";
          cases "tl (filter (company_matches I sc) (experience p))") auto
    with assms(1) r show ?thesis by (simp add: extract_company_role_def)
  next
    assume "filter (company_matches I sc) (experience p) = []
      \<and> scalars p ''full_name'' \<noteq> None"
    with assms(1) r show ?thesis by (auto simp: extract_company_role_def)
  qed
qed

text \<open>
  C8 as stated fails for a profile without experience: no entry matches the target company,
  yet nobody is asked and the result is the empty string.
\<close>

theorem no_experience_not_asked:
  "filter (company_matches sample_interp (str ''Acme'')) (experience no_experience_profile) = []
   \<and> extract_company_role sample_interp no_experience_profile (str ''Acme'')
         (console [str ''CTO at Acme''])
       = ([], console [str ''CTO at Acme''])"
  by (simp add: extract_company_role_def no_experience_profile_def)

text \<open>
  C8, amended. Without experience the result is the empty string and nobody is asked. With
  experience whose company names are text: exactly one entry matching the target company
  without regard to case gives \<open>title at company for duration\<close>, with the target company as
  passed, and nobody is asked; two or more matches, or no match for a profile with a
  \<open>full_name\<close>, give the operator's answer to the prompt for the role statement.
\<close>

theorem role_extraction:
  "(experience p = [] \<longrightarrow> extract_company_role I p sc s = ([], s))
   \<and> (experience p \<noteq> [] \<and> companies_are_text p
        \<and> filter (company_matches I sc) (experience p) = [m] \<longrightarrow>
        extract_company_role I p sc s =
          (py_str (dget m ''title'' (PStr (str ''Unknown Role''))) @ str '' at '' @ sc
             @ str '' for '' @ py_str (dget m ''duration'' (PStr (str ''Unknown Duration''))), s))
   \<and> (experience p \<noteq> [] \<and> companies_are_text p
        \<and> (2 \<le> length (filter (company_matches I sc) (experience p))
            \<or> (filter (company_matches I sc) (experience p) = []
                \<and> scalars p ''full_name'' \<noteq> None)) \<longrightarrow>
        extract_company_role I p sc s = ask_role s
        \<and> prompts (snd (ask_role s)) = prompts s @ [role_prompt]
        \<and> (\<forall>l ls. stdin s = l # ls \<longrightarrow> fst (ask_role s) = l))"
proof -
  have 1: "experience p = [] \<longrightarrow> extract_company_role I p sc s = ([], s)"
    by (simp add: extract_company_role_def)
  have 2: "experience p \<noteq> [] \<and> companies_are_text p
        \<and> filter (company_matches I sc) (experience p) = [m] \<longrightarrow>
        extract_company_role I p sc s =
          (py_str (dget m ''title'' (PStr (str ''Unknown Role''))) @ str '' at '' @ sc
             @ str '' for '' @ py_str (dget m ''duration'' (PStr (str ''Unknown Duration''))), s)"
    using extract_one [of p I sc m s] by blast
  have 3: "experience p \<noteq> [] \<and> companies_are_text p
        \<and> (2 \<le> length (filter (company_matches I sc) (experience p))
            \<or> (filter (company_matches I sc) (experience p) = []
                \<and> scalars p ''full_name'' \<noteq> None)) \<longrightarrow>
        extract_company_role I p sc s = ask_role s
        \<and> prompts (snd (ask_role s)) = prompts s @ [role_prompt]
        \<and> (\<forall>l ls. stdin s = l # ls \<longrightarrow> fst (ask_role s) = l)"
    using extract_ask [of p I sc s] ask_role_prompts [of s] ask_role_answer [of s] by blast
  from 1 2 3 show ?thesis by blast
qed

theorem role_extraction_witness:
  "extract_company_role sample_interp stored_profile (str ''acme'') (console [])
     = (str ''Engineer at acme for 1 yr'', console [])
   \<and> extract_company_role sample_interp nestle_profile nestle_lower (console [])
     = (str ''Analyst at '' @ nestle_lower @ str '' for 2 yrs'', console [])
   \<and> fst (extract_company_role sample_interp two_founders (str ''Zeta'')
            (console [str ''Advisor at Zeta'']))
       = str ''Advisor at Zeta''
   \<and> prompts (snd (extract_company_role sample_interp two_founders (str ''Zeta'')
                     (console [str ''Advisor at Zeta''])))
       = [role_prompt]"
proof -
  have c1: "company_matches sample_interp (str ''acme'') engineer_at_acme"
    by (simp add: company_matches_def dget_def engineer_at_acme_def)
       (simp add: lower_def ascii_lower_def ascii_lower_char_def str_def)
  have e1: "experience stored_profile \<noteq> [] \<and> companies_are_text stored_profile
      \<and> filter (company_matches sample_interp (str ''acme'')) (experience stored_profile)
          = [engineer_at_acme]"
    using c1
    by (simp add: stored_profile_def companies_are_text_def)
       (simp add: dget_def engineer_at_acme_def)
  have f1: "py_str (dget engineer_at_acme ''title'' (PStr (str ''Unknown Role''))) @ str '' at ''
      @ str ''acme'' @ str '' for ''
      @ py_str (dget engineer_at_acme ''duration'' (PStr (str ''Unknown Duration'')))
      = str ''Engineer at acme for 1 yr''"
    by (simp add: dget_def engineer_at_acme_def str_def)
  have c3: "company_matches sample_interp nestle_lower analyst_at_nestle"
    by (simp add: company_matches_def dget_def analyst_at_nestle_def)
       (simp add: lower_def nestle_lower_def sample_interp_def latin1_lower_char_def str_def)
  have e3: "experience nestle_profile \<noteq> [] \<and> companies_are_text nestle_profile
      \<and> filter (company_matches sample_interp nestle_lower) (experience nestle_profile)
          = [analyst_at_nestle]"
    using c3
    by (simp add: nestle_profile_def companies_are_text_def)
       (simp add: dget_def analyst_at_nestle_def)
  have f3: "py_str (dget analyst_at_nestle ''title'' (PStr (str ''Unknown Role''))) @ str '' at ''
      @ nestle_lower @ str '' for ''
      @ py_str (dget analyst_at_nestle ''duration'' (PStr (str ''Unknown Duration'')))
      = str ''Analyst at '' @ nestle_lower @ str '' for 2 yrs''"
    by (simp add: dget_def analyst_at_nestle_def str_def)
  have n2: "\<not> company_matches sample_interp (str ''Zeta'') e"
    if "e \<in> set (experience two_founders)" for e
    using that
    by (auto simp: two_founders_def company_matches_def dget_def lower_def ascii_lower_def
          ascii_lower_char_def str_def)
  have e2: "experience two_founders \<noteq> [] \<and> companies_are_text two_founders
      \<and> filter (company_matches sample_interp (str ''Zeta'')) (experience two_founders) = []
      \<and> scalars two_founders ''full_name'' \<noteq> None"
    using n2 by (auto simp: filter_empty_conv)
       (simp_all add: two_founders_def companies_are_text_def dget_def)
  have st: "stdin (console [str ''Advisor at Zeta'']) = str ''Advisor at Zeta'' # []"
    "prompts (console [str ''Advisor at Zeta'']) = []"
    by (simp_all add: console_def)
  from role_extraction [of stored_profile sample_interp "str ''acme''" "console []"
      engineer_at_acme] e1 f1
  have 1: "extract_company_role sample_interp stored_profile (str ''acme'') (console [])
     = (str ''Engineer at acme for 1 yr'', console [])" by simp
  from role_extraction [of nestle_profile sample_interp nestle_lower "console []"
      analyst_at_nestle] e3 f3
  have 4: "extract_company_role sample_interp nestle_profile nestle_lower (console [])
     = (str ''Analyst at '' @ nestle_lower @ str '' for 2 yrs'', console [])" by simp
  from role_extraction [of two_founders sample_interp "str ''Zeta''"
      "console [str ''Advisor at Zeta'']"] e2
  have "extract_company_role sample_interp two_founders (str ''Zeta'')
          (console [str ''Advisor at Zeta''])
          = ask_role (console [str ''Advisor at Zeta''])"
    and "prompts (snd (ask_role (console [str ''Advisor at Zeta''])))
          = prompts (console [str ''Advisor at Zeta'']) @ [role_prompt]"
    and "\<forall>l ls. stdin (console [str ''Advisor at Zeta'']) = l # ls \<longrightarrow>
          fst (ask_role (console [str ''Advisor at Zeta''])) = l"
    by blast+
  with st have 2: "fst (extract_company_role sample_interp two_founders (str ''Zeta'')
            (console [str ''Advisor at Zeta'']))
       = str ''Advisor at Zeta''"
    and 3: "prompts (snd (extract_company_role sample_interp two_founders (str ''Zeta'')
          (console [str ''Advisor at Zeta'']))) = [role_prompt]"
    by simp_all
  from 1 4 2 3 show ?thesis by blast
qed

end
